theory Spec2Isabelle
  imports Main "HOL-Library.Word"
begin

unbundle bit_operations_syntax

section \<open>Values thrown and caught\<close>

text \<open>
  The source catches every failure with \<open>catch (e: any)\<close> and reads \<open>e.message\<close>.
  A thrown value is modelled by its constructor and its message; the error event a
  \<open>FileReader\<close> rejects with is an event object and has no \<open>message\<close> property.
  The messages of errors the engine throws are written as Chrome words them; the code only
  passes them on to the user.
\<close>

datatype thrown =
    Error string
  | TypeError string
  | RangeError string
  | SyntaxError string
  | DOMException string
  | ProgressEvent

text \<open>\<open>`${e.message}`\<close>: the message, or the text \<open>undefined\<close> where there is none.\<close>

fun message :: "thrown \<Rightarrow> string" where
  "message (Error m) = m"
| "message (TypeError m) = m"
| "message (RangeError m) = m"
| "message (SyntaxError m) = m"
| "message (DOMException m) = m"
| "message ProgressEvent = ''undefined''"

text \<open>Sequencing of statements that may throw: the first throw ends the block.\<close>

fun andThen :: "thrown + 'a \<Rightarrow> ('a \<Rightarrow> thrown + 'b) \<Rightarrow> thrown + 'b" where
  "andThen (Inl e) f = Inl e"
| "andThen (Inr v) f = f v"

section \<open>ArrayBuffer, DataView and Int16Array\<close>

type_synonym byte = "8 word"

text \<open>\<open>new ArrayBuffer(n)\<close>: \<open>n\<close> zero bytes.\<close>

definition ArrayBuffer :: "nat \<Rightarrow> byte list" where
  "ArrayBuffer n = replicate n 0"

text \<open>The bytes of a 16-bit and of a 32-bit value, least significant first.\<close>

definition bytes16 :: "16 word \<Rightarrow> byte list" where
  "bytes16 w = [ucast w, ucast (drop_bit 8 w)]"

definition bytes32 :: "32 word \<Rightarrow> byte list" where
  "bytes32 w = [ucast w, ucast (drop_bit 8 w), ucast (drop_bit 16 w), ucast (drop_bit 24 w)]"

text \<open>
  A \<open>DataView\<close> store of \<open>bs\<close> at \<open>byteOffset\<close>: a \<open>RangeError\<close> when the bytes do
  not fit in the view, otherwise the view with those bytes replaced.
\<close>

definition setBytes :: "byte list \<Rightarrow> nat \<Rightarrow> byte list \<Rightarrow> thrown + byte list" where
  "setBytes view byteOffset bs =
     (if byteOffset + length bs \<le> length view
      then Inr (take byteOffset view @ bs @ drop (byteOffset + length bs) view)
      else Inl (RangeError ''Offset is outside the bounds of the DataView''))"

text \<open>
  \<open>view.setUint32(byteOffset, value, littleEndian)\<close>: the value is taken modulo \<open>2^32\<close>
  (ToUint32), which is what \<open>word_of_int\<close> does. \<open>setUint16\<close> and \<open>setInt16\<close> take
  it modulo \<open>2^16\<close> and store the same two bytes.
\<close>

definition setUint32 :: "byte list \<Rightarrow> nat \<Rightarrow> int \<Rightarrow> bool \<Rightarrow> thrown + byte list" where
  "setUint32 view byteOffset v littleEndian =
     setBytes view byteOffset
       (if littleEndian then bytes32 (word_of_int v) else rev (bytes32 (word_of_int v)))"

definition setUint16 :: "byte list \<Rightarrow> nat \<Rightarrow> int \<Rightarrow> bool \<Rightarrow> thrown + byte list" where
  "setUint16 view byteOffset v littleEndian =
     setBytes view byteOffset
       (if littleEndian then bytes16 (word_of_int v) else rev (bytes16 (word_of_int v)))"

definition setInt16 :: "byte list \<Rightarrow> nat \<Rightarrow> int \<Rightarrow> bool \<Rightarrow> thrown + byte list" where
  "setInt16 view byteOffset v littleEndian =
     setBytes view byteOffset
       (if littleEndian then bytes16 (word_of_int v) else rev (bytes16 (word_of_int v)))"






section \<open>pcmToWav\<close>

text \<open>
  A \<open>Blob\<close> built from one part: its bytes and its \<open>type\<close>. An \<open>Int16Array\<close> is a
  list of 16-bit words; reading an element gives the number \<open>sint\<close> of it.
\<close>

record Blob =
  blobBytes :: "byte list"
  blobType :: string

text \<open>
  The loop \<open>for (let i = 0; i < pcmData.length; i++) { view.setInt16(offset, pcmData[i], true);
  offset += 2; }\<close>, as a recursion over the samples still to be written.
\<close>

fun writeSamples :: "byte list \<Rightarrow> nat \<Rightarrow> 16 word list \<Rightarrow> thrown + byte list" where
  "writeSamples view offset [] = Inr view"
| "writeSamples view offset (s # ss) =
     andThen (setInt16 view offset (sint s) True) (\<lambda>view. writeSamples view (offset + 2) ss)"

text \<open>
  \<open>sampleRate\<close> is a JavaScript number; the caller passes the result of \<open>parseInt\<close> on a
  run of decimal digits, an integer. \<open>numChannels * bitsPerSample / 8\<close> is \<open>16 / 8\<close>, exact.
\<close>

definition pcmToWav :: "16 word list \<Rightarrow> int \<Rightarrow> thrown + Blob" where
  "pcmToWav pcmData sampleRate =
     (let numChannels = 1;
          bitsPerSample = 16;
          byteRate = numChannels * bitsPerSample div 8 * sampleRate;
          blockAlign = numChannels * bitsPerSample div 8;
          buffer = ArrayBuffer (44 + length pcmData * 2)
      in
      andThen (setUint32 buffer 0 0x52494646 False) (\<lambda>view.
      andThen (setUint32 view 4 (36 + int (length pcmData) * 2) True) (\<lambda>view.
      andThen (setUint32 view 8 0x57415645 False) (\<lambda>view.
      andThen (setUint32 view 12 0x666d7420 False) (\<lambda>view.
      andThen (setUint32 view 16 16 True) (\<lambda>view.
      andThen (setUint16 view 20 1 True) (\<lambda>view.
      andThen (setUint16 view 22 numChannels True) (\<lambda>view.
      andThen (setUint32 view 24 sampleRate True) (\<lambda>view.
      andThen (setUint32 view 28 byteRate True) (\<lambda>view.
      andThen (setUint16 view 32 blockAlign True) (\<lambda>view.
      andThen (setUint16 view 34 bitsPerSample True) (\<lambda>view.
      andThen (setUint32 view 36 0x64617461 False) (\<lambda>view.
      andThen (setUint32 view 40 (int (length pcmData) * 2) True) (\<lambda>view.
      andThen (writeSamples view 44 pcmData) (\<lambda>view.
      Inr \<lparr>blobBytes = view, blobType = ''audio/wav''\<rparr>)))))))))))))))"

section \<open>JavaScript values\<close>

text \<open>
  What \<open>JSON.parse\<close> and \<open>response.json()\<close> return, and what the component keeps in
  its state: the code types both as \<open>any\<close>. \<open>JUndefined\<close> is the value of a missing
  property. \<open>JNum\<close> carries an integer-valued number; the source forwards and tests
  numbers of a payload but never computes with them. \<open>JObj\<close> lists the own properties
  of an object, each key once.
\<close>

datatype jsval =
    JUndefined
  | JNull
  | JBool bool
  | JNum int
  | JStr string
  | JArr "jsval list"
  | JObj "(string \<times> jsval) list"

text \<open>ToBoolean, as \<open>!x\<close>, \<open>x && y\<close> and \<open>x || y\<close> apply it.\<close>

fun truthy :: "jsval \<Rightarrow> bool" where
  "truthy JUndefined = False"
| "truthy JNull = False"
| "truthy (JBool b) = b"
| "truthy (JNum n) = (n \<noteq> 0)"
| "truthy (JStr s) = (s \<noteq> [])"
| "truthy (JArr xs) = True"
| "truthy (JObj kvs) = True"

fun nullish :: "jsval \<Rightarrow> bool" where
  "nullish JUndefined = True"
| "nullish JNull = True"
| "nullish v = False"

text \<open>Decimal digits of a natural number, and ToString of an integer-valued number.\<close>

function digitsOf :: "nat \<Rightarrow> string" where
  "digitsOf n = (if n < 10 then [char_of (48 + n)] else digitsOf (n div 10) @ [char_of (48 + n mod 10)])"
  by pat_completeness auto
termination
  by (relation "measure id") auto

declare digitsOf.simps [simp del]

definition showInt :: "int \<Rightarrow> string" where
  "showInt i = (if i < 0 then CHR ''-'' # digitsOf (nat (- i)) else digitsOf (nat i))"

text \<open>\<open>xs.join(sep)\<close> on strings.\<close>

fun joinWith :: "string \<Rightarrow> string list \<Rightarrow> string" where
  "joinWith sep [] = []"
| "joinWith sep [x] = x"
| "joinWith sep (x # y # ys) = x @ sep @ joinWith sep (y # ys)"

text \<open>
  ToString, as a template literal and \<open>atob\<close> apply it to their argument. An array
  joins its elements with commas, \<open>null\<close> and \<open>undefined\<close> elements as empty text.
\<close>

fun toString :: "jsval \<Rightarrow> string" where
  "toString JUndefined = ''undefined''"
| "toString JNull = ''null''"
| "toString (JBool b) = (if b then ''true'' else ''false'')"
| "toString (JNum n) = showInt n"
| "toString (JStr s) = s"
| "toString (JArr xs) = joinWith '','' (map (\<lambda>x. if nullish x then [] else toString x) xs)"
| "toString (JObj kvs) = ''[object Object]''"

text \<open>
  Reading a property. On \<open>null\<close> and \<open>undefined\<close> the read throws a \<open>TypeError\<close>;
  on every other value it gives the own property of that name or \<open>undefined\<close>. The
  names the source reads (\<open>status\<close>, \<open>title\<close>, \<open>tags\<close>, \<open>candidates\<close>, \<open>content\<close>,
  \<open>parts\<close>, \<open>inlineData\<close>, \<open>data\<close>, \<open>mimeType\<close>, ...) are not properties of any built-in
  prototype, so a string, a number, a boolean or an array has none of them.
\<close>

fun ownProp :: "jsval \<Rightarrow> string \<Rightarrow> jsval" where
  "ownProp (JObj kvs) k = (case map_of kvs k of None \<Rightarrow> JUndefined | Some v \<Rightarrow> v)"
| "ownProp v k = JUndefined"

definition getProp :: "jsval \<Rightarrow> string \<Rightarrow> thrown + jsval" where
  "getProp v k =
     (if nullish v
      then Inl (TypeError (''Cannot read properties of '' @ toString v @ '' (reading '' @ [CHR 0x27] @ k @ [CHR 0x27] @ '')''))
      else Inr (ownProp v k))"

text \<open>
  \<open>v?.k\<close> and \<open>v?.[0]\<close>: \<open>undefined\<close> on \<open>null\<close> and \<open>undefined\<close>, the property
  otherwise. Element \<open>0\<close> of an array is its first element, of a string its first
  character, of an object its property \<open>0\<close>.
\<close>

definition optProp :: "jsval \<Rightarrow> string \<Rightarrow> jsval" where
  "optProp v k = (if nullish v then JUndefined else ownProp v k)"

fun optFirst :: "jsval \<Rightarrow> jsval" where
  "optFirst (JArr (x # xs)) = x"
| "optFirst (JStr (c # cs)) = JStr [c]"
| "optFirst (JObj kvs) = ownProp (JObj kvs) ''0''"
| "optFirst v = JUndefined"

section \<open>Base64: readAsDataURL, atob and the two helpers\<close>

text \<open>
  \<open>fileToBase64\<close> and \<open>base64ToArrayBuffer\<close> wrap two functions of the platform:
  \<open>FileReader.readAsDataURL\<close>, which encodes a file's bytes in base64 (RFC 4648,
  section 4, with padding) behind a \<open>data:\<close> prefix, and \<open>atob\<close>, the forgiving
  base64 decoder of the HTML standard. Both are written out here as those documents
  define them.
\<close>

definition b64alphabet :: string where
  "b64alphabet = ''ABCDEFGHIJKLMNOPQRSTUVWXYZabcdefghijklmnopqrstuvwxyz0123456789+/''"

text \<open>
  Each group of three bytes becomes four 6-bit values; a final group of two bytes
  becomes three values and a final single byte two, the missing low bits being zero.
\<close>

fun sextets :: "byte list \<Rightarrow> nat list" where
  "sextets [] = []"
| "sextets [a] = (let n = unat a * 16 in [n div 64, n mod 64])"
| "sextets [a, b] = (let n = unat a * 1024 + unat b * 4 in [n div 4096, n div 64 mod 64, n mod 64])"
| "sextets (a # b # c # rest) =
     (let n = unat a * 65536 + unat b * 256 + unat c
      in [n div 262144, n div 4096 mod 64, n div 64 mod 64, n mod 64] @ sextets rest)"

definition base64Encode :: "byte list \<Rightarrow> string" where
  "base64Encode bs =
     map (\<lambda>v. b64alphabet ! v) (sextets bs) @ replicate ((3 - length bs mod 3) mod 3) CHR ''=''"

text \<open>
  A \<open>File\<close>: its media type and its bytes. A media type is a token, a slash and a
  token, so it has no comma (RFC 2045). The result of \<open>readAsDataURL\<close> is
  \<open>data:<type>;base64,<payload>\<close>, with \<open>application/octet-stream\<close> for a file of
  unknown type.
\<close>

record File =
  fileType :: string
  fileBytes :: "byte list"

definition readAsDataURL :: "File \<Rightarrow> string" where
  "readAsDataURL file =
     ''data:'' @ (if fileType file = [] then ''application/octet-stream'' else fileType file)
     @ '';base64,'' @ base64Encode (fileBytes file)"

text \<open>\<open>s.split(sep)\<close> for a one-character separator, and \<open>xs[i]\<close> on its result.\<close>

fun split :: "string \<Rightarrow> char \<Rightarrow> string list" where
  "split [] sep = [[]]"
| "split (c # cs) sep =
     (if c = sep then [] # split cs sep
      else (case split cs sep of [] \<Rightarrow> [[c]] | x # xs \<Rightarrow> (c # x) # xs))"

definition element :: "string list \<Rightarrow> nat \<Rightarrow> jsval" where
  "element xs i = (if i < length xs then JStr (xs ! i) else JUndefined)"

text \<open>
  The promise of \<open>fileToBase64\<close>: the reader either loads the file, and the promise
  resolves with \<open>reader.result.split(',')[1]\<close>, or fails, and the promise rejects with
  the reader's error event.
\<close>

datatype readerEvent = OnLoad | OnError

definition fileToBase64 :: "File \<Rightarrow> readerEvent \<Rightarrow> thrown + jsval" where
  "fileToBase64 file ev =
     (case ev of
        OnLoad \<Rightarrow> Inr (element (split (readAsDataURL file) CHR '','') 1)
      | OnError \<Rightarrow> Inl ProgressEvent)"

text \<open>
  \<open>atob\<close>, the forgiving base64 decode: remove ASCII whitespace; if the length is a
  multiple of four, remove one or two trailing \<open>=\<close>; fail if the length is then 1
  modulo 4 or a character is outside the alphabet; otherwise every four characters give
  three bytes, and a final group of two or three characters gives one or two bytes, its
  last four or two bits being discarded. The result is a binary string, one character
  per byte. A failure is an \<open>InvalidCharacterError\<close>.
\<close>

definition asciiWhitespace :: "char \<Rightarrow> bool" where
  "asciiWhitespace c = (c \<in> set [CHR 0x09, CHR 0x0A, CHR 0x0C, CHR 0x0D, CHR 0x20])"

definition stripPadding :: "string \<Rightarrow> string" where
  "stripPadding s =
     (case rev s of
        c # d # r \<Rightarrow> (if c = CHR ''='' then (if d = CHR ''='' then rev r else rev (d # r)) else s)
      | [c] \<Rightarrow> (if c = CHR ''='' then [] else s)
      | [] \<Rightarrow> s)"

fun indexOf :: "'a list \<Rightarrow> 'a \<Rightarrow> nat option" where
  "indexOf [] x = None"
| "indexOf (y # ys) x = (if x = y then Some 0 else map_option Suc (indexOf ys x))"

fun unsextets :: "nat list \<Rightarrow> nat list" where
  "unsextets [] = []"
| "unsextets [p] = []"
| "unsextets [p, q] = (let n = p * 64 + q in [n div 16])"
| "unsextets [p, q, r] = (let n = (p * 64 + q) * 64 + r in [n div 1024, n div 4 mod 256])"
| "unsextets (p # q # r # s # rest) =
     (let n = ((p * 64 + q) * 64 + r) * 64 + s
      in [n div 65536, n div 256 mod 256, n mod 256] @ unsextets rest)"

definition atob :: "string \<Rightarrow> thrown + string" where
  "atob input =
     (let data = filter (\<lambda>c. \<not> asciiWhitespace c) input;
          data = (if length data mod 4 = 0 then stripPadding data else data)
      in if length data mod 4 = 1 \<or> list_ex (\<lambda>c. indexOf b64alphabet c = None) data
         then Inl (DOMException (''Failed to execute '' @ [CHR 0x27] @ ''atob'' @ [CHR 0x27] @ '' on '' @ [CHR 0x27]
                              @ ''Window'' @ [CHR 0x27] @ '': The string to be decoded is not correctly encoded.''))
         else Inr (map char_of (unsextets (map (\<lambda>c. the (indexOf b64alphabet c)) data))))"

text \<open>
  The loop \<open>for (let i = 0; i < len; i++) { bytes[i] = binaryString.charCodeAt(i); }\<close>
  over a \<open>Uint8Array\<close>, which stores a number modulo 256.
\<close>

function fillBytes :: "string \<Rightarrow> nat \<Rightarrow> nat \<Rightarrow> byte list \<Rightarrow> byte list" where
  "fillBytes binaryString len i bytes =
     (if i < len
      then fillBytes binaryString len (i + 1) (bytes[i := of_nat (of_char (binaryString ! i))])
      else bytes)"
  by pat_completeness auto
termination
  by (relation "measure (\<lambda>(binaryString, len, i, bytes). len - i)") auto

declare fillBytes.simps [simp del]

definition base64ToArrayBuffer :: "string \<Rightarrow> thrown + byte list" where
  "base64ToArrayBuffer base64 =
     andThen (atob base64)
       (\<lambda>binaryString.
          let len = length binaryString;
              bytes = replicate len 0
          in Inr (fillBytes binaryString len 0 bytes))"

section \<open>The state of the component\<close>

text \<open>
  The \<open>useState\<close> cells of \<open>App\<close>, with the values they hold at run time: the
  verdicts, explanations and metadata are whatever the setters were given, so they are
  \<open>jsval\<close>s. An object URL is a handle, numbered in the order of creation. Next to
  the cells, the record keeps what the page has running: the object URLs created and not
  revoked, the calls of \<open>analyzeImageWithAI\<close> that have not finished, the speech
  requests sent and not answered, and the audio elements that were asked to play.
\<close>

text \<open>
  A call of \<open>analyzeImageWithAI\<close> waits twice: for the \<open>FileReader\<close>, and then, the
  request sent, for the model. The request carries the encoded image and its media type
  (and the fixed prompt and schema, constants of the source).
\<close>

datatype analysis = Reading File | Requesting jsval string

record App =
  imageFile :: "File option"
  imageUrl :: "nat option"
  copyrightStatus :: jsval
  copyrightDescription :: jsval
  zedgeViolationStatus :: jsval
  zedgeViolationDescription :: jsval
  womenPolicyStatus :: jsval
  womenPolicyDescription :: jsval
  kidsViolationStatus :: jsval
  kidsViolationDescription :: jsval
  title :: jsval
  imageDescription :: jsval
  tags :: jsval
  loading :: bool
  error :: "string option"
  isSpeaking :: bool
  isModalOpen :: bool
  modalContent :: string
  objectUrls :: "nat list"
  urlsCreated :: nat
  analyses :: "analysis list"
  speechRequests :: "string list"
  audios :: "nat list"

definition initialApp :: App where
  "initialApp =
     \<lparr>imageFile = None, imageUrl = None,
      copyrightStatus = JNull, copyrightDescription = JNull,
      zedgeViolationStatus = JNull, zedgeViolationDescription = JNull,
      womenPolicyStatus = JNull, womenPolicyDescription = JNull,
      kidsViolationStatus = JNull, kidsViolationDescription = JNull,
      title = JNull, imageDescription = JNull, tags = JArr [],
      loading = False, error = None, isSpeaking = False,
      isModalOpen = False, modalContent = [],
      objectUrls = [], urlsCreated = 0, analyses = [], speechRequests = [], audios = []\<rparr>"

definition showModal :: "string \<Rightarrow> App \<Rightarrow> App" where
  "showModal msg st = st\<lparr>modalContent := msg, isModalOpen := True\<rparr>"

definition closeModal :: "App \<Rightarrow> App" where
  "closeModal st = st\<lparr>isModalOpen := False, modalContent := []\<rparr>"

definition resetState :: "App \<Rightarrow> App" where
  "resetState st =
     st\<lparr>copyrightStatus := JNull, copyrightDescription := JNull,
        zedgeViolationStatus := JNull, zedgeViolationDescription := JNull,
        womenPolicyStatus := JNull, womenPolicyDescription := JNull,
        kidsViolationStatus := JNull, kidsViolationDescription := JNull,
        title := JNull, imageDescription := JNull, tags := JArr [], error := None\<rparr>"

text \<open>\<open>URL.createObjectURL\<close> and \<open>URL.revokeObjectURL\<close>.\<close>

definition createObjectURL :: "App \<Rightarrow> nat \<times> App" where
  "createObjectURL st =
     (urlsCreated st, st\<lparr>objectUrls := urlsCreated st # objectUrls st, urlsCreated := urlsCreated st + 1\<rparr>)"

definition revokeObjectURL :: "nat \<Rightarrow> App \<Rightarrow> App" where
  "revokeObjectURL url st = st\<lparr>objectUrls := removeAll url (objectUrls st)\<rparr>"

text \<open>\<open>s.startsWith(p)\<close>.\<close>

definition startsWith :: "string \<Rightarrow> string \<Rightarrow> bool" where
  "startsWith s p = (take (length p) s = p)"

definition handleFileSelect :: "File option \<Rightarrow> App \<Rightarrow> App" where
  "handleFileSelect file st =
     (case file of
        None \<Rightarrow> st
      | Some f \<Rightarrow>
          if startsWith (fileType f) ''image/''
          then (let st = resetState st;
                    st = st\<lparr>imageFile := Some f\<rparr>;
                    (url, st) = createObjectURL st
                in st\<lparr>imageUrl := Some url\<rparr>)
          else st)"

definition handleClear :: "App \<Rightarrow> App" where
  "handleClear st =
     (let st = (case (imageUrl st, imageFile st) of
                  (Some url, Some f) \<Rightarrow> revokeObjectURL url st
                | _ \<Rightarrow> st);
          st = st\<lparr>imageFile := None, imageUrl := None\<rparr>
      in resetState st)"

text \<open>\<open>copyToClipboard\<close>: the clipboard write settles, and one of two messages is shown.\<close>

definition copySettled :: "bool \<Rightarrow> App \<Rightarrow> App" where
  "copySettled written st =
     (if written then showModal ''Copied to clipboard!'' st else showModal ''Failed to copy text.'' st)"

section \<open>analyzeImageWithAI\<close>

text \<open>
  Statements that change the state and may throw: the state reached, and the value
  thrown if one was. \<open>seq\<close> is \<open>;\<close>: the second statement runs only if the first did
  not throw, and the state changes made before a throw stay.
\<close>

type_synonym action = "App \<Rightarrow> (thrown + unit) \<times> App"

definition seq :: "action \<Rightarrow> action \<Rightarrow> action" where
  "seq a b st = (case a st of (Inl e, st') \<Rightarrow> (Inl e, st') | (Inr u, st') \<Rightarrow> b st')"

text \<open>\<open>setX(obj.key)\<close>: the property is read first, then the setter is called.\<close>

definition setFrom :: "(jsval \<Rightarrow> App \<Rightarrow> App) \<Rightarrow> jsval \<Rightarrow> string \<Rightarrow> action" where
  "setFrom setter obj key st =
     (case getProp obj key of Inl e \<Rightarrow> (Inl e, st) | Inr v \<Rightarrow> (Inr (), setter v st))"

text \<open>
  The condition of line 251, \<open>parsedJson.status === 'pass' && ... && parsedJson.kidsViolationStatus === 'pass'\<close>,
  evaluated left to right and stopping at the first verdict that is not \<open>'pass'\<close>.
\<close>

definition allPass :: "jsval \<Rightarrow> thrown + bool" where
  "allPass parsedJson =
     andThen (getProp parsedJson ''status'') (\<lambda>v.
       if v \<noteq> JStr ''pass'' then Inr False else
     andThen (getProp parsedJson ''zedgeViolationStatus'') (\<lambda>v.
       if v \<noteq> JStr ''pass'' then Inr False else
     andThen (getProp parsedJson ''womenPolicyStatus'') (\<lambda>v.
       if v \<noteq> JStr ''pass'' then Inr False else
     andThen (getProp parsedJson ''kidsViolationStatus'') (\<lambda>v.
       Inr (v = JStr ''pass'')))))"

text \<open>Lines 242 to 255: the setters called on the parsed response.\<close>

definition populate :: "jsval \<Rightarrow> action" where
  "populate parsedJson =
     seq (setFrom (\<lambda>v st. st\<lparr>copyrightStatus := v\<rparr>) parsedJson ''status'')
    (seq (setFrom (\<lambda>v st. st\<lparr>copyrightDescription := v\<rparr>) parsedJson ''copyrightDescription'')
    (seq (setFrom (\<lambda>v st. st\<lparr>zedgeViolationStatus := v\<rparr>) parsedJson ''zedgeViolationStatus'')
    (seq (setFrom (\<lambda>v st. st\<lparr>zedgeViolationDescription := v\<rparr>) parsedJson ''zedgeViolationDescription'')
    (seq (setFrom (\<lambda>v st. st\<lparr>womenPolicyStatus := v\<rparr>) parsedJson ''womenPolicyStatus'')
    (seq (setFrom (\<lambda>v st. st\<lparr>womenPolicyDescription := v\<rparr>) parsedJson ''womenPolicyDescription'')
    (seq (setFrom (\<lambda>v st. st\<lparr>kidsViolationStatus := v\<rparr>) parsedJson ''kidsViolationStatus'')
    (seq (setFrom (\<lambda>v st. st\<lparr>kidsViolationDescription := v\<rparr>) parsedJson ''kidsViolationDescription'')
    (\<lambda>st. case allPass parsedJson of
             Inl e \<Rightarrow> (Inl e, st)
           | Inr False \<Rightarrow> (Inr (), st)
           | Inr True \<Rightarrow>
               seq (setFrom (\<lambda>v st. st\<lparr>title := v\<rparr>) parsedJson ''title'')
              (seq (setFrom (\<lambda>v st. st\<lparr>imageDescription := v\<rparr>) parsedJson ''imageDescription'')
                   (setFrom (\<lambda>v st. st\<lparr>tags := (if truthy v then v else JArr [])\<rparr>) parsedJson ''tags''))
               st))))))))"

text \<open>
  The part of the call that runs before the first \<open>await\<close>: the guard on \<open>imageFile\<close>,
  \<open>setLoading(true)\<close>, \<open>resetState()\<close>, and the read of the file is started.
\<close>

definition analyzeBegin :: "App \<Rightarrow> App" where
  "analyzeBegin st =
     (case imageFile st of
        None \<Rightarrow> showModal ''Please upload an image first.'' st
      | Some f \<Rightarrow>
          (let st = st\<lparr>loading := True\<rparr>;
               st = resetState st
           in st\<lparr>analyses := analyses st @ [Reading f]\<rparr>))"

text \<open>
  The part after the last \<open>await\<close>. \<open>outcome\<close> is what the \<open>try\<close> block has when it
  reaches line 242: \<open>Inr parsedJson\<close>, the value \<open>JSON.parse\<close> returned, or \<open>Inl e\<close>,
  the value thrown before that (by the rejected read, by the rejected request or by
  \<open>JSON.parse\<close>). Then the \<open>catch\<close> and the \<open>finally\<close> block.
\<close>

definition analyzeEnd :: "thrown + jsval \<Rightarrow> App \<Rightarrow> App" where
  "analyzeEnd outcome st =
     (let (r, st) = (case outcome of Inl e \<Rightarrow> (Inl e, st) | Inr parsedJson \<Rightarrow> populate parsedJson st);
          st = (case r of
                  Inl e \<Rightarrow>
                    (let st = st\<lparr>error := Some (''An error occurred during AI analysis: '' @ message e)\<rparr>
                     in showModal (''An error occurred during AI analysis: '' @ message e) st)
                | Inr u \<Rightarrow> st)
      in st\<lparr>loading := False\<rparr>)"

text \<open>
  One whole call, nothing else happening meanwhile: \<open>ev\<close> is how the read of the file
  ends, \<open>reply\<close> what the request and \<open>JSON.parse\<close> give if the read succeeds.
\<close>

definition analyzeImageWithAI :: "readerEvent \<Rightarrow> thrown + jsval \<Rightarrow> App \<Rightarrow> App" where
  "analyzeImageWithAI ev reply st =
     (case imageFile st of
        None \<Rightarrow> analyzeBegin st
      | Some f \<Rightarrow>
          (let st = analyzeBegin st;
               st = st\<lparr>analyses := butlast (analyses st)\<rparr>
           in analyzeEnd (andThen (fileToBase64 f ev) (\<lambda>base64Data. reply)) st))"

section \<open>handleTextToSpeech\<close>

text \<open>
  What \<open>fetch\<close> resolves with: \<open>response.ok\<close>, \<open>response.status\<close>, and what
  \<open>response.text()\<close> and \<open>response.json()\<close> would settle with.
\<close>

record Response =
  ok :: bool
  status :: nat
  bodyText :: "thrown + string"
  bodyJson :: "thrown + jsval"

text \<open>
  \<open>audioData && mimeType?.startsWith("audio/")\<close>. A falsy \<open>audioData\<close> ends the
  condition; \<open>mimeType?.startsWith\<close> is \<open>undefined\<close> on \<open>null\<close> and \<open>undefined\<close>, the
  string method on a string, and not a function on anything else JSON can hold, where the
  call throws a \<open>TypeError\<close>. The result is the media type when the condition holds.
\<close>

definition audioCondition :: "jsval \<Rightarrow> jsval \<Rightarrow> thrown + string option" where
  "audioCondition audioData mimeType =
     (if \<not> truthy audioData then Inr None
      else (case mimeType of
              JUndefined \<Rightarrow> Inr None
            | JNull \<Rightarrow> Inr None
            | JStr s \<Rightarrow> Inr (if startsWith s ''audio/'' then Some s else None)
            | _ \<Rightarrow> Inl (TypeError ''mimeType?.startsWith is not a function'')))"

text \<open>
  \<open>mimeType.match(/rate=(\d+)/)\<close>: the leftmost place where \<open>rate=\<close> is followed by a
  decimal digit; the group is the longest run of digits there. \<open>None\<close> is \<open>null\<close>.
\<close>

definition isDigit :: "char \<Rightarrow> bool" where
  "isDigit c = (48 \<le> (of_char c :: nat) \<and> (of_char c :: nat) \<le> 57)"

fun matchRate :: "string \<Rightarrow> string option" where
  "matchRate [] = None"
| "matchRate (c # cs) =
     (if startsWith (c # cs) ''rate='' \<and> takeWhile isDigit (drop 5 (c # cs)) \<noteq> []
      then Some (takeWhile isDigit (drop 5 (c # cs)))
      else matchRate cs)"

text \<open>
  \<open>parseInt(digits, 10)\<close> on a run of decimal digits: its value (the number the engine
  returns is this integer rounded to a double, the same below \<open>2^53\<close>).
\<close>

definition parseInt :: "string \<Rightarrow> int" where
  "parseInt digits = foldl (\<lambda>n c. 10 * n + (int (of_char c) - 48)) 0 digits"

text \<open>
  \<open>new Int16Array(buffer)\<close>: a \<open>RangeError\<close> when the byte length is odd; otherwise
  the elements are the pairs of bytes, low byte first.
\<close>

fun pairs16 :: "byte list \<Rightarrow> 16 word list" where
  "pairs16 (lo # hi # rest) = (ucast lo OR push_bit 8 (ucast hi)) # pairs16 rest"
| "pairs16 bs = []"

definition Int16Array :: "byte list \<Rightarrow> thrown + 16 word list" where
  "Int16Array buffer =
     (if odd (length buffer)
      then Inl (RangeError ''byte length of Int16Array should be a multiple of 2'')
      else Inr (pairs16 buffer))"

text \<open>
  Lines 295 to 318, from the settled \<open>fetch\<close> to the container: without the state, which
  these lines do not touch. \<open>Inl\<close> is the value the \<open>try\<close> block throws.
\<close>

definition speechContainer :: "thrown + Response \<Rightarrow> thrown + Blob" where
  "speechContainer fetched =
     andThen fetched (\<lambda>response.
     andThen (if \<not> ok response
              then andThen (bodyText response) (\<lambda>errorText.
                     Inl (Error (''API call failed with status: '' @ showInt (int (status response))
                                 @ ''. Response: '' @ errorText)))
              else Inr ()) (\<lambda>u.
     andThen (bodyJson response) (\<lambda>result.
       let part = optFirst (optProp (optProp (optFirst (optProp result ''candidates'')) ''content'') ''parts'');
           audioData = optProp (optProp part ''inlineData'') ''data'';
           mimeType = optProp (optProp part ''inlineData'') ''mimeType''
       in
       andThen (audioCondition audioData mimeType) (\<lambda>audio.
         case audio of
           Some mimeType \<Rightarrow>
             (case matchRate mimeType of
                None \<Rightarrow> Inl (Error ''Sample rate not found in MIME type'')
              | Some digits \<Rightarrow>
                  (let sampleRate = parseInt digits in
                   andThen (base64ToArrayBuffer (toString audioData)) (\<lambda>pcmData.
                   andThen (Int16Array pcmData) (\<lambda>pcm16.
                   pcmToWav pcm16 sampleRate))))
         | None \<Rightarrow> Inl (Error ''Failed to get audio data from the model.'')))))"

text \<open>
  The part of the call before the \<open>await\<close>: the guard, \<open>setIsSpeaking(true)\<close>, the check
  of the credential, and the request is sent. \<open>apiKey\<close> is \<open>process.env.API_KEY\<close>,
  \<open>None\<close> when it is not defined. The request is recorded by the text it asks to speak.
\<close>

definition speakBegin :: "string option \<Rightarrow> jsval \<Rightarrow> App \<Rightarrow> App" where
  "speakBegin apiKey text st =
     (if \<not> truthy text \<or> isSpeaking st then st
      else (let st = st\<lparr>isSpeaking := True\<rparr> in
            if apiKey = None \<or> apiKey = Some []
            then (let st = showModal ''API key is not configured.'' st
                  in st\<lparr>isSpeaking := False\<rparr>)
            else st\<lparr>speechRequests := speechRequests st @ [''Say cheerfully: '' @ toString text]\<rparr>))"

text \<open>
  The part after the \<open>await\<close>, for the oldest request: on a container, an object URL
  is created and an \<open>Audio\<close> element on it is asked to play; on a throw, the \<open>catch\<close>
  block shows the message and clears the flag.
\<close>

definition speakEnd :: "thrown + Response \<Rightarrow> App \<Rightarrow> App" where
  "speakEnd fetched st =
     (let st = st\<lparr>speechRequests := tl (speechRequests st)\<rparr> in
      case speechContainer fetched of
        Inr wavBlob \<Rightarrow>
          (let (audioUrl, st) = createObjectURL st
           in st\<lparr>audios := audios st @ [audioUrl]\<rparr>)
      | Inl e \<Rightarrow>
          (let st = showModal (''An error occurred during TTS generation: '' @ message e) st
           in st\<lparr>isSpeaking := False\<rparr>))"

text \<open>
  The two handlers on the audio element: the rejection of \<open>audio.play()\<close> (lines 322 to
  324), after which the element never ends, and \<open>audio.onended\<close> (lines 326 to 329).
\<close>

definition playRejected :: "nat \<Rightarrow> thrown \<Rightarrow> App \<Rightarrow> App" where
  "playRejected audioUrl e st =
     (let st = st\<lparr>audios := removeAll audioUrl (audios st)\<rparr>
      in showModal (''Failed to play audio: '' @ message e) st)"

definition onended :: "nat \<Rightarrow> App \<Rightarrow> App" where
  "onended audioUrl st =
     (let st = st\<lparr>audios := removeAll audioUrl (audios st)\<rparr>;
          st = st\<lparr>isSpeaking := False\<rparr>
      in revokeObjectURL audioUrl st)"

text \<open>One whole call up to the start of playback, nothing else happening meanwhile.\<close>

definition handleTextToSpeech :: "string option \<Rightarrow> jsval \<Rightarrow> thrown + Response \<Rightarrow> App \<Rightarrow> App" where
  "handleTextToSpeech apiKey text fetched st =
     (if \<not> truthy text \<or> isSpeaking st \<or> apiKey = None \<or> apiKey = Some []
      then speakBegin apiKey text st
      else speakEnd fetched (speakBegin apiKey text st))"

section \<open>The page as a sequence of events\<close>

text \<open>
  All code of the component runs in event handlers and in the continuations of its
  promises, one at a time; React has applied the state changes of one before the next
  runs. An event is a user action on a rendered control or the settling of something
  the page waits for. A control that is not rendered or is \<open>disabled\<close> gives no event:
  firing it leaves the state as it is. \<open>ReaderSettled i\<close> and \<open>ModelSettled i\<close> settle
  what the \<open>i\<close>-th unfinished call of \<open>analyzeImageWithAI\<close> waits for (a throw of the
  client's constructor counts as a rejected request).
\<close>

datatype event =
    FileChosen "File option"
  | ClearClicked
  | AnalysisClicked
  | ReaderSettled nat readerEvent
  | ModelSettled nat "thrown + jsval"
  | SpeakTitleClicked
  | SpeakDescriptionClicked
  | FetchSettled "thrown + Response"
  | PlayRejected nat thrown
  | Ended nat
  | CopySettled bool
  | ModalClosed

definition dropAt :: "nat \<Rightarrow> 'a list \<Rightarrow> 'a list" where
  "dropAt i xs = take i xs @ drop (Suc i) xs"

text \<open>
  The condition under which the metadata card, with its speak buttons, is rendered
  (line 402): the four verdict cells are \<open>'pass'\<close> and the title is truthy.
\<close>

definition verdictsPass :: "App \<Rightarrow> bool" where
  "verdictsPass st =
     (copyrightStatus st = JStr ''pass'' \<and> zedgeViolationStatus st = JStr ''pass'' \<and>
      womenPolicyStatus st = JStr ''pass'' \<and> kidsViolationStatus st = JStr ''pass'')"

definition cardShown :: "App \<Rightarrow> bool" where
  "cardShown st = (verdictsPass st \<and> truthy (title st))"

text \<open>
  The cells as \<open>resetState\<close> leaves them: the verdicts and explanations unevaluated
  (lines 93 to 100), the metadata empty (lines 101 to 103).
\<close>

definition verdictsCleared :: "App \<Rightarrow> bool" where
  "verdictsCleared st =
     (copyrightStatus st = JNull \<and> copyrightDescription st = JNull \<and>
      zedgeViolationStatus st = JNull \<and> zedgeViolationDescription st = JNull \<and>
      womenPolicyStatus st = JNull \<and> womenPolicyDescription st = JNull \<and>
      kidsViolationStatus st = JNull \<and> kidsViolationDescription st = JNull)"

definition metadataCleared :: "App \<Rightarrow> bool" where
  "metadataCleared st = (title st = JNull \<and> imageDescription st = JNull \<and> tags st = JArr [])"

fun fire :: "string option \<Rightarrow> event \<Rightarrow> App \<Rightarrow> App" where
  "fire apiKey (FileChosen file) st = handleFileSelect file st"
| "fire apiKey ClearClicked st = (if imageUrl st \<noteq> None then handleClear st else st)"
| "fire apiKey AnalysisClicked st =
     (if loading st \<or> imageFile st = None then st else analyzeBegin st)"
| "fire apiKey (ReaderSettled i ev) st =
     (if i < length (analyses st)
      then (case analyses st ! i of
              Reading f \<Rightarrow>
                (case fileToBase64 f ev of
                   Inl e \<Rightarrow> analyzeEnd (Inl e) (st\<lparr>analyses := dropAt i (analyses st)\<rparr>)
                 | Inr base64Data \<Rightarrow>
                     st\<lparr>analyses := (analyses st)[i := Requesting base64Data (fileType f)]\<rparr>)
            | Requesting d t \<Rightarrow> st)
      else st)"
| "fire apiKey (ModelSettled i reply) st =
     (if i < length (analyses st)
      then (case analyses st ! i of
              Reading f \<Rightarrow> st
            | Requesting d t \<Rightarrow> analyzeEnd reply (st\<lparr>analyses := dropAt i (analyses st)\<rparr>))
      else st)"
| "fire apiKey SpeakTitleClicked st =
     (if cardShown st \<and> \<not> isSpeaking st then speakBegin apiKey (title st) st else st)"
| "fire apiKey SpeakDescriptionClicked st =
     (if cardShown st \<and> \<not> isSpeaking st then speakBegin apiKey (imageDescription st) st else st)"
| "fire apiKey (FetchSettled fetched) st =
     (if speechRequests st \<noteq> [] then speakEnd fetched st else st)"
| "fire apiKey (PlayRejected audioUrl e) st =
     (if audioUrl \<in> set (audios st) then playRejected audioUrl e st else st)"
| "fire apiKey (Ended audioUrl) st =
     (if audioUrl \<in> set (audios st) then onended audioUrl st else st)"
| "fire apiKey (CopySettled written) st = copySettled written st"
| "fire apiKey ModalClosed st = (if isModalOpen st then closeModal st else st)"

text \<open>The state of the page after a sequence of events, from the initial render.\<close>

definition run :: "string option \<Rightarrow> event list \<Rightarrow> App" where
  "run apiKey events = foldl (\<lambda>st ev. fire apiKey ev st) initialApp events"

text \<open>The requests of the analysis that are out and not answered.\<close>

fun requesting :: "analysis \<Rightarrow> bool" where
  "requesting (Requesting d t) = True"
| "requesting (Reading f) = False"

text \<open>
  What holds of the page after every sequence of events, as the proofs below show: at
  most one call of \<open>analyzeImageWithAI\<close> is unfinished, and \<open>loading\<close> is set exactly
  while one is; during that time the cells are cleared and no error is set; an error is
  only ever shown over cleared cells; and metadata is only ever shown over four verdicts
  \<open>'pass'\<close>.
\<close>

definition pageInvariant :: "App \<Rightarrow> bool" where
  "pageInvariant st =
     (length (analyses st) \<le> 1 \<and>
      (loading st \<longleftrightarrow> analyses st \<noteq> []) \<and>
      (analyses st \<noteq> [] \<longrightarrow> verdictsCleared st \<and> metadataCleared st \<and> error st = None) \<and>
      (error st \<noteq> None \<longrightarrow> verdictsCleared st \<and> metadataCleared st) \<and>
      (\<not> metadataCleared st \<longrightarrow> verdictsPass st))"

section \<open>The response shape of the analysis request\<close>

text \<open>
  The shape a classification response is asked to have, as the schema of the request
  (lines 220 to 235) lists its properties and the specification words it: an object with
  four verdicts, each \<open>'pass'\<close> or \<open>'found'\<close>, four explanation strings, and, each of them
  optional, a title string, a description string and an array of tag strings.
\<close>

fun isString :: "jsval \<Rightarrow> bool" where
  "isString (JStr s) = True"
| "isString v = False"

fun isStringArray :: "jsval \<Rightarrow> bool" where
  "isStringArray (JArr xs) = list_all isString xs"
| "isStringArray v = False"

fun isObject :: "jsval \<Rightarrow> bool" where
  "isObject (JObj kvs) = True"
| "isObject v = False"

definition verdictKeys :: "string list" where
  "verdictKeys = [''status'', ''zedgeViolationStatus'', ''womenPolicyStatus'', ''kidsViolationStatus'']"

definition declaredShape :: "jsval \<Rightarrow> bool" where
  "declaredShape p =
     (isObject p \<and>
      list_all (\<lambda>k. ownProp p k = JStr ''pass'' \<or> ownProp p k = JStr ''found'') verdictKeys \<and>
      list_all (\<lambda>k. isString (ownProp p k))
        [''copyrightDescription'', ''zedgeViolationDescription'', ''womenPolicyDescription'',
         ''kidsViolationDescription''] \<and>
      (ownProp p ''title'' = JUndefined \<or> isString (ownProp p ''title'')) \<and>
      (ownProp p ''imageDescription'' = JUndefined \<or> isString (ownProp p ''imageDescription'')) \<and>
      (ownProp p ''tags'' = JUndefined \<or> isStringArray (ownProp p ''tags'')))"

section \<open>The container built by pcmToWav\<close>

subsection \<open>Stores into a zeroed buffer\<close>

lemma setBytes_at_end:
  "length pre = off \<Longrightarrow> length bs \<le> length rest \<Longrightarrow>
   setBytes (pre @ rest) off bs = Inr (pre @ bs @ drop (length bs) rest)"
  by (simp add: setBytes_def)

lemma word_of_int_sint16: "word_of_int (sint (s :: 16 word)) = s"
  by simp

lemma writeSamples_zeros:
  "length pre = off \<Longrightarrow>
   writeSamples (pre @ replicate (2 * length ss) 0) off ss = Inr (pre @ concat (map bytes16 ss))"
proof (induction ss arbitrary: pre off)
  case Nil
  then show ?case by simp
next
  case (Cons s ss)
  have len: "length (bytes16 s) = 2" by (simp add: bytes16_def)
  have "setInt16 (pre @ replicate (2 * length (s # ss)) 0) off (sint s) True
        = Inr (pre @ bytes16 s @ replicate (2 * length ss) 0)"
    using Cons.prems by (simp add: setInt16_def setBytes_at_end len)
  moreover have "writeSamples ((pre @ bytes16 s) @ replicate (2 * length ss) 0) (off + 2) ss
        = Inr ((pre @ bytes16 s) @ concat (map bytes16 ss))"
    by (rule Cons.IH) (simp add: Cons.prems len)
  ultimately show ?case by simp
qed



subsection \<open>Reading the bytes of a value back\<close>






subsection \<open>The bytes of the container\<close>

lemma setUint32_zeros:
  "length pre = off \<Longrightarrow>
   setUint32 (pre @ replicate (4 + k) 0) off v le =
     Inr ((pre @ (if le then bytes32 (word_of_int v) else rev (bytes32 (word_of_int v))))
          @ replicate k 0)"
  by (simp add: setUint32_def setBytes_at_end bytes32_def)

lemma setUint16_zeros:
  "length pre = off \<Longrightarrow>
   setUint16 (pre @ replicate (2 + k) 0) off v le =
     Inr ((pre @ (if le then bytes16 (word_of_int v) else rev (bytes16 (word_of_int v))))
          @ replicate k 0)"
  by (simp add: setUint16_def setBytes_at_end bytes16_def)

lemma pcmToWav_bytes:
  "pcmToWav S R =
     Inr \<lparr>blobBytes =
            rev (bytes32 0x52494646) @ bytes32 (word_of_int (36 + int (length S) * 2))
            @ rev (bytes32 0x57415645) @ rev (bytes32 0x666d7420) @ bytes32 16
            @ bytes16 1 @ bytes16 1 @ bytes32 (word_of_int R) @ bytes32 (word_of_int (2 * R))
            @ bytes16 2 @ bytes16 16 @ rev (bytes32 0x64617461)
            @ bytes32 (word_of_int (int (length S) * 2)) @ concat (map bytes16 S),
          blobType = ''audio/wav''\<rparr>"
proof -
  define n where "n = 2 * length S"
  let ?a1 = "rev (bytes32 0x52494646)"
  let ?a2 = "?a1 @ bytes32 (word_of_int (36 + int (length S) * 2))"
  let ?a3 = "?a2 @ rev (bytes32 0x57415645)"
  let ?a4 = "?a3 @ rev (bytes32 0x666d7420)"
  let ?a5 = "?a4 @ bytes32 16"
  let ?a6 = "?a5 @ bytes16 1"
  let ?a7 = "?a6 @ bytes16 1"
  let ?a8 = "?a7 @ bytes32 (word_of_int R)"
  let ?a9 = "?a8 @ bytes32 (word_of_int (2 * R))"
  let ?a10 = "?a9 @ bytes16 2"
  let ?a11 = "?a10 @ bytes16 16"
  let ?a12 = "?a11 @ rev (bytes32 0x64617461)"
  let ?a13 = "?a12 @ bytes32 (word_of_int (int (length S) * 2))"
  have l32: "length (bytes32 w) = 4" for w by (simp add: bytes32_def)
  have l16: "length (bytes16 w) = 2" for w by (simp add: bytes16_def)
  have s1: "setUint32 (ArrayBuffer (44 + length S * 2)) 0 0x52494646 False = Inr (?a1 @ replicate (40 + n) 0)"
    using setUint32_zeros [of "[]" 0 "40 + n" "0x52494646" False]
    by (simp add: ArrayBuffer_def n_def mult.commute)
  have s2: "setUint32 (?a1 @ replicate (40 + n) 0) 4 (36 + int (length S) * 2) True = Inr (?a2 @ replicate (36 + n) 0)"
    using setUint32_zeros [of ?a1 4 "36 + n" _ True] by (simp add: l32)
  have s3: "setUint32 (?a2 @ replicate (36 + n) 0) 8 0x57415645 False = Inr (?a3 @ replicate (32 + n) 0)"
    using setUint32_zeros [of ?a2 8 "32 + n" "0x57415645" False] by (simp add: l32)
  have s4: "setUint32 (?a3 @ replicate (32 + n) 0) 12 0x666d7420 False = Inr (?a4 @ replicate (28 + n) 0)"
    using setUint32_zeros [of ?a3 12 "28 + n" "0x666d7420" False] by (simp add: l32)
  have s5: "setUint32 (?a4 @ replicate (28 + n) 0) 16 16 True = Inr (?a5 @ replicate (24 + n) 0)"
    using setUint32_zeros [of ?a4 16 "24 + n" 16 True] by (simp add: l32)
  have s6: "setUint16 (?a5 @ replicate (24 + n) 0) 20 1 True = Inr (?a6 @ replicate (22 + n) 0)"
    using setUint16_zeros [of ?a5 20 "22 + n" 1 True] by (simp add: l32)
  have s7: "setUint16 (?a6 @ replicate (22 + n) 0) 22 1 True = Inr (?a7 @ replicate (20 + n) 0)"
    using setUint16_zeros [of ?a6 22 "20 + n" 1 True] by (simp add: l32 l16)
  have s8: "setUint32 (?a7 @ replicate (20 + n) 0) 24 R True = Inr (?a8 @ replicate (16 + n) 0)"
    using setUint32_zeros [of ?a7 24 "16 + n" R True] by (simp add: l32 l16)
  have s9: "setUint32 (?a8 @ replicate (16 + n) 0) 28 (2 * R) True = Inr (?a9 @ replicate (12 + n) 0)"
    using setUint32_zeros [of ?a8 28 "12 + n" "2 * R" True] by (simp add: l32 l16)
  have s10: "setUint16 (?a9 @ replicate (12 + n) 0) 32 2 True = Inr (?a10 @ replicate (10 + n) 0)"
    using setUint16_zeros [of ?a9 32 "10 + n" 2 True] by (simp add: l32 l16)
  have s11: "setUint16 (?a10 @ replicate (10 + n) 0) 34 16 True = Inr (?a11 @ replicate (8 + n) 0)"
    using setUint16_zeros [of ?a10 34 "8 + n" 16 True] by (simp add: l32 l16)
  have s12: "setUint32 (?a11 @ replicate (8 + n) 0) 36 0x64617461 False = Inr (?a12 @ replicate (4 + n) 0)"
    using setUint32_zeros [of ?a11 36 "4 + n" "0x64617461" False] by (simp add: l32 l16)
  have s13: "setUint32 (?a12 @ replicate (4 + n) 0) 40 (int (length S) * 2) True = Inr (?a13 @ replicate n 0)"
    using setUint32_zeros [of ?a12 40 n _ True] by (simp add: l32 l16)
  have s14: "writeSamples (?a13 @ replicate n 0) 44 S = Inr (?a13 @ concat (map bytes16 S))"
    unfolding n_def by (rule writeSamples_zeros) (simp add: l32 l16)
  have br: "(1::int) * 16 div 8 * R = 2 * R" by simp
  have ba: "(1::int) * 16 div 8 = 2" by simp
  have "pcmToWav S R = Inr \<lparr>blobBytes = ?a13 @ concat (map bytes16 S), blobType = ''audio/wav''\<rparr>"
    unfolding pcmToWav_def Let_def
    by (simp only: br ba s1 s2 s3 s4 s5 s6 s7 s8 s9 s10 s11 s12 s13 s14 andThen.simps)
  then show ?thesis by (simp only: append_assoc)
qed











section \<open>The base64 helpers are inverse to each other\<close>

subsection \<open>The alphabet\<close>

lemma distinct_b64alphabet: "distinct b64alphabet"
  by code_simp

lemma length_b64alphabet: "length b64alphabet = 64"
  by (simp add: b64alphabet_def)

lemma indexOf_nth: "distinct xs \<Longrightarrow> i < length xs \<Longrightarrow> indexOf xs (xs ! i) = Some i"
proof (induction xs arbitrary: i)
  case Nil
  then show ?case by simp
next
  case (Cons y ys)
  show ?case
  proof (cases i)
    case 0
    then show ?thesis by simp
  next
    case (Suc j)
    from Cons.prems Suc have j: "j < length ys" by simp
    from Cons.prems have d: "distinct ys" and y: "y \<notin> set ys" by simp_all
    from j y have ne: "ys ! j \<noteq> y" using nth_mem by metis
    from Cons.IH [OF d j] Suc ne show ?thesis by simp
  qed
qed

lemma b64_index: "v < 64 \<Longrightarrow> indexOf b64alphabet (b64alphabet ! v) = Some v"
  by (simp add: indexOf_nth distinct_b64alphabet length_b64alphabet)

lemma b64_not_pad: "indexOf b64alphabet CHR ''='' = None"
  by code_simp

lemma b64_not_comma: "indexOf b64alphabet CHR '','' = None"
  by code_simp

lemma b64_whitespace_list:
  "list_all (\<lambda>c. indexOf b64alphabet c = None) [CHR 0x09, CHR 0x0A, CHR 0x0C, CHR 0x0D, CHR 0x20]"
  by code_simp

lemma b64_not_whitespace: "asciiWhitespace c \<Longrightarrow> indexOf b64alphabet c = None"
  using b64_whitespace_list unfolding asciiWhitespace_def list_all_iff by blast

subsection \<open>Six-bit groups\<close>

lemma div_lt_64: "n < 64 * k \<Longrightarrow> n div k < (64::nat)"
  by (simp add: less_mult_imp_div_less mult.commute)

lemma sextets_lt: "v \<in> set (sextets bs) \<Longrightarrow> v < 64"
proof (induction bs arbitrary: v rule: sextets.induct)
  case 1
  then show ?case by simp
next
  case (2 a)
  have "unat a < 256" using unsigned_less [of a] by simp
  then have "unat a * 16 div 64 < 64" by (intro div_lt_64) simp
  with 2 show ?case by (auto simp: Let_def)
next
  case (3 a b)
  have "unat a < 256" "unat b < 256" using unsigned_less [of a] unsigned_less [of b] by simp_all
  then have "(unat a * 1024 + unat b * 4) div 4096 < 64" by (intro div_lt_64) simp
  with 3 show ?case by (auto simp: Let_def)
next
  case (4 a b c rest)
  have "unat a < 256" "unat b < 256" "unat c < 256"
    using unsigned_less [of a] unsigned_less [of b] unsigned_less [of c] by simp_all
  then have "(unat a * 65536 + unat b * 256 + unat c) div 262144 < 64" by (intro div_lt_64) simp
  with 4 show ?case by (auto simp: Let_def)
qed

lemma join2: "(n::nat) div 64 * 64 + n mod 64 = n"
  by simp

lemma join3: "((n::nat) div 4096 * 64 + n div 64 mod 64) * 64 + n mod 64 = n"
proof -
  have "n div 4096 = n div 64 div 64" by (simp add: div_mult2_eq)
  then show ?thesis by simp
qed

lemma join4:
  "(((n::nat) div 262144 * 64 + n div 4096 mod 64) * 64 + n div 64 mod 64) * 64 + n mod 64 = n"
proof -
  have a: "n div 4096 = n div 64 div 64" by (simp add: div_mult2_eq)
  have b: "n div 262144 = n div 64 div 64 div 64" by (simp add: div_mult2_eq)
  show ?thesis unfolding a b by simp
qed

lemma bytes1: "(a::nat) * 16 div 16 = a"
  by simp

lemma bytes2:
  assumes "b < (256::nat)"
  shows "(a * 1024 + b * 4) div 1024 = a" and "(a * 1024 + b * 4) div 4 mod 256 = b"
proof -
  show "(a * 1024 + b * 4) div 1024 = a" using assms by simp
  have "(a * 1024 + b * 4) div 4 = a * 256 + b" by simp
  then show "(a * 1024 + b * 4) div 4 mod 256 = b" using assms by simp
qed

lemma bytes3:
  assumes "b < (256::nat)" and "c < (256::nat)"
  shows "(a * 65536 + b * 256 + c) div 65536 = a"
    and "(a * 65536 + b * 256 + c) div 256 mod 256 = b"
    and "(a * 65536 + b * 256 + c) mod 256 = c"
proof -
  show "(a * 65536 + b * 256 + c) div 65536 = a" using assms by simp
  have "(a * 65536 + b * 256 + c) div 256 = a * 256 + b" using assms by simp
  then show "(a * 65536 + b * 256 + c) div 256 mod 256 = b" using assms by simp
  have "a * 65536 + b * 256 + c = c + 256 * (a * 256 + b)" by simp
  then have "(a * 65536 + b * 256 + c) mod 256 = c mod 256"
    by (simp only: mod_mult_self2)
  then show "(a * 65536 + b * 256 + c) mod 256 = c" using assms by simp
qed

lemma unsextets2: "unsextets [n div 64, n mod 64] = [n div 16]"
  by (simp only: unsextets.simps Let_def join2)

lemma unsextets3:
  "unsextets [n div 4096, n div 64 mod 64, n mod 64] = [n div 1024, n div 4 mod 256]"
  by (simp only: unsextets.simps Let_def join3)

lemma unsextets4:
  "unsextets ([n div 262144, n div 4096 mod 64, n div 64 mod 64, n mod 64] @ rest) =
     [n div 65536, n div 256 mod 256, n mod 256] @ unsextets rest"
  by (simp only: unsextets.simps Let_def join4 append_Cons append_Nil)

lemma unsextets_sextets: "unsextets (sextets bs) = map unat bs"
proof (induction bs rule: sextets.induct)
  case 1
  then show ?case by simp
next
  case (2 a)
  have "unsextets (sextets [a]) = [unat a * 16 div 16]"
    by (simp only: sextets.simps Let_def unsextets2)
  then show ?case by simp
next
  case (3 a b)
  have b: "unat b < 256" using unsigned_less [of b] by simp
  have "unsextets (sextets [a, b]) =
          [(unat a * 1024 + unat b * 4) div 1024, (unat a * 1024 + unat b * 4) div 4 mod 256]"
    by (simp only: sextets.simps Let_def unsextets3)
  then show ?case by (simp only: bytes2 [OF b] list.map)
next
  case (4 a b c rest)
  have b: "unat b < 256" and c: "unat c < 256"
    using unsigned_less [of b] unsigned_less [of c] by simp_all
  have "unsextets (sextets (a # b # c # rest)) =
          [(unat a * 65536 + unat b * 256 + unat c) div 65536,
           (unat a * 65536 + unat b * 256 + unat c) div 256 mod 256,
           (unat a * 65536 + unat b * 256 + unat c) mod 256] @ unsextets (sextets rest)"
    by (simp only: sextets.simps Let_def unsextets4)
  then show ?case by (simp only: bytes3 [OF b c] 4 list.map append_Cons append_Nil)
qed

subsection \<open>Length and padding of an encoding\<close>

lemma mod3_step: "Suc (Suc (Suc n)) mod 3 = n mod 3"
  by presburger

lemma mod4_step: "Suc (Suc (Suc (Suc n))) mod 4 = n mod 4"
  by presburger

lemma length_sextets_mod:
  "length (sextets bs) mod 4 = (if length bs mod 3 = 0 then 0 else length bs mod 3 + 1)"
  by (induction bs rule: sextets.induct) (simp_all add: Let_def mod3_step mod4_step)

lemma padded_length: "(length (sextets bs) + (3 - length bs mod 3) mod 3) mod 4 = 0"
proof -
  have "length bs mod 3 = 0 \<or> length bs mod 3 = 1 \<or> length bs mod 3 = 2" by presburger
  moreover have "(length (sextets bs) + k) mod 4 = (length (sextets bs) mod 4 + k) mod 4" for k
    by presburger
  ultimately show ?thesis
    using length_sextets_mod [of bs] by auto
qed

lemma body_length: "length (sextets bs) mod 4 \<noteq> 1"
proof -
  have "length bs mod 3 = 0 \<or> length bs mod 3 = 1 \<or> length bs mod 3 = 2" by presburger
  then show ?thesis using length_sextets_mod [of bs] by auto
qed

lemma stripPadding_body:
  assumes "CHR ''='' \<notin> set body" and "k \<le> 2"
  shows "stripPadding (body @ replicate k CHR ''='') = body"
proof -
  have k: "k = 0 \<or> k = 1 \<or> k = 2" using assms(2) by arith
  show ?thesis
  proof (cases "rev body")
    case Nil
    then have "body = []" by simp
    then show ?thesis using k by (auto simp: stripPadding_def numeral_2_eq_2)
  next
    case (Cons c r)
    then have body: "body = rev r @ [c]" by (metis rev_rev_ident rev.simps(2))
    with assms(1) have c: "c \<noteq> CHR ''=''" by auto
    show ?thesis
    proof (cases r)
      case Nil
      then show ?thesis using k c body by (auto simp: stripPadding_def numeral_2_eq_2)
    next
      case (Cons d r')
      then show ?thesis using k c body by (auto simp: stripPadding_def numeral_2_eq_2)
    qed
  qed
qed


subsection \<open>Decoding an encoding\<close>

lemma encoded_body:
  assumes "c \<in> set (map (\<lambda>v. b64alphabet ! v) (sextets bs))"
  shows "indexOf b64alphabet c \<noteq> None"
proof -
  from assms obtain v where "v \<in> set (sextets bs)" and "c = b64alphabet ! v" by auto
  then show ?thesis using b64_index [of v] sextets_lt [of v bs] by simp
qed

lemma decode_body:
  "map (\<lambda>c. the (indexOf b64alphabet c)) (map (\<lambda>v. b64alphabet ! v) (sextets bs)) = sextets bs"
proof -
  have "the (indexOf b64alphabet (b64alphabet ! v)) = v" if "v \<in> set (sextets bs)" for v
    using b64_index [of v] sextets_lt [OF that] by simp
  then show ?thesis by (simp add: map_idI)
qed

lemma pad_le: "(3 - n mod 3) mod 3 \<le> (2::nat)"
proof -
  have "(3 - n mod 3) mod 3 < 3" by (rule mod_less_divisor) simp
  then show ?thesis by simp
qed

lemma atob_base64Encode: "atob (base64Encode bs) = Inr (map char_of (map unat bs))"
proof -
  define body where "body = map (\<lambda>v. b64alphabet ! v) (sextets bs)"
  define k where "k = (3 - length bs mod 3) mod 3"
  have enc: "base64Encode bs = body @ replicate k CHR ''=''"
    by (simp add: base64Encode_def body_def k_def)
  have inb: "indexOf b64alphabet c \<noteq> None" if "c \<in> set body" for c
    using that encoded_body unfolding body_def by blast
  have nopad: "CHR ''='' \<notin> set body" using inb b64_not_pad by blast
  have nows: "\<not> asciiWhitespace c" if "c \<in> set (body @ replicate k CHR ''='')" for c
  proof
    assume "asciiWhitespace c"
    then have none: "indexOf b64alphabet c = None" and "c \<noteq> CHR ''=''"
      by (auto simp: b64_not_whitespace asciiWhitespace_def)
    with that have "c \<in> set body" by auto
    with none inb show False by blast
  qed
  define padded where "padded = body @ replicate k CHR ''=''"
  have f: "filter (\<lambda>c. \<not> asciiWhitespace c) (base64Encode bs) = padded"
    unfolding enc padded_def using nows by (simp only: filter_id_conv) blast
  have len: "length padded mod 4 = 0"
    using padded_length [of bs] by (simp add: padded_def body_def k_def)
  have strip: "stripPadding padded = body"
    unfolding padded_def using nopad pad_le [of "length bs"] by (simp add: stripPadding_body k_def)
  have l1: "length body mod 4 \<noteq> 1" using body_length [of bs] by (simp add: body_def)
  have ok: "\<not> list_ex (\<lambda>c. indexOf b64alphabet c = None) body"
    using inb by (auto simp: list_ex_iff)
  have dec: "map (\<lambda>c. the (indexOf b64alphabet c)) body = sextets bs"
    unfolding body_def by (rule decode_body)
  have "atob (base64Encode bs) = Inr (map char_of (unsextets (sextets bs)))"
    unfolding atob_def Let_def f by (simp only: len strip l1 ok dec if_True if_False simp_thms)
  then show ?thesis by (simp only: unsextets_sextets)
qed

lemma fillBytes_map:
  "len = length s \<Longrightarrow> i \<le> len \<Longrightarrow> length bytes = len \<Longrightarrow>
   fillBytes s len i bytes = take i bytes @ map (\<lambda>c. of_nat (of_char c)) (drop i s)"
proof (induction s len i bytes rule: fillBytes.induct)
  case (1 binaryString len i bytes)
  show ?case
  proof (cases "i < len")
    case True
    let ?b = "bytes[i := of_nat (of_char (binaryString ! i))]"
    have "fillBytes binaryString len (i + 1) ?b
            = take (i + 1) ?b @ map (\<lambda>c. of_nat (of_char c)) (drop (i + 1) binaryString)"
      using 1 True by simp
    moreover have "take (i + 1) ?b = take i bytes @ [of_nat (of_char (binaryString ! i))]"
      using True "1.prems" by (simp add: take_Suc_conv_app_nth)
    moreover have "drop i binaryString = binaryString ! i # drop (i + 1) binaryString"
      using True "1.prems" by (simp add: Cons_nth_drop_Suc)
    ultimately show ?thesis
      using True by (subst fillBytes.simps) simp
  next
    case False
    with "1.prems" have "i = length binaryString" by simp
    then show ?thesis using "1.prems" False by (subst fillBytes.simps) simp
  qed
qed

lemma base64ToArrayBuffer_base64Encode: "base64ToArrayBuffer (base64Encode bs) = Inr bs"
proof -
  have "of_nat (of_char (char_of (unat b))) = b" for b :: byte
  proof -
    have "unat b < 256" using unsigned_less [of b] by simp
    then show ?thesis by simp
  qed
  then have "map (\<lambda>c. of_nat (of_char c)) (map char_of (map unat bs)) = bs"
    by (simp add: map_idI comp_def)
  then show ?thesis
    using fillBytes_map [of "length bs" "map char_of (map unat bs)" 0 "replicate (length bs) 0"]
    by (simp add: base64ToArrayBuffer_def atob_base64Encode Let_def)
qed

subsection \<open>The payload of the data URL\<close>

lemma split_no_sep: "sep \<notin> set s \<Longrightarrow> split s sep = [s]"
  by (induction s) auto

lemma split_at_sep:
  "sep \<notin> set pre \<Longrightarrow> split (pre @ sep # post) sep = pre # split post sep"
  by (induction pre) auto

lemma base64Encode_no_comma: "CHR '','' \<notin> set (base64Encode bs)"
proof
  assume "CHR '','' \<in> set (base64Encode bs)"
  then have "CHR '','' \<in> set (map (\<lambda>v. b64alphabet ! v) (sextets bs))"
    by (auto simp: base64Encode_def)
  then show False using encoded_body b64_not_comma by blast
qed

lemma fileToBase64_payload:
  assumes "CHR '','' \<notin> set (fileType file)"
  shows "fileToBase64 file OnLoad = Inr (JStr (base64Encode (fileBytes file)))"
proof -
  define ty where "ty = (if fileType file = [] then ''application/octet-stream'' else fileType file)"
  have ty: "CHR '','' \<notin> set ty" using assms by (simp add: ty_def)
  have url: "readAsDataURL file = (''data:'' @ ty @ '';base64'') @ CHR '','' # base64Encode (fileBytes file)"
    by (simp add: readAsDataURL_def ty_def)
  have "split (readAsDataURL file) CHR '','' = (''data:'' @ ty @ '';base64'') # [base64Encode (fileBytes file)]"
    unfolding url using ty
    by (subst split_at_sep) (simp_all add: split_no_sep base64Encode_no_comma)
  then show ?thesis by (simp add: fileToBase64_def element_def)
qed

text \<open>
  Claim C4. For every byte sequence, decoding the encoding gives the bytes back: the promise
  of \<open>fileToBase64\<close> on a loaded file resolves with a string, and
  \<open>base64ToArrayBuffer\<close> of that string returns, without throwing, the file's bytes.
  The file's media type has no comma, as every media type.
\<close>

theorem base64_roundtrip:
  assumes "CHR '','' \<notin> set (fileType file)"
  shows "\<exists>s. fileToBase64 file OnLoad = Inr (JStr s) \<and> base64ToArrayBuffer s = Inr (fileBytes file)"
  using fileToBase64_payload [OF assms] base64ToArrayBuffer_base64Encode by blast

text \<open>
  An example: the seven bytes \<open>89 50 4E 47 00 FF 0A\<close> of a file of type
  \<open>image/png\<close> travel as \<open>iVBORwD/Cg==\<close>.
\<close>

lemma example_sextets:
  "sextets [0x89, 0x50, 0x4E, 0x47, 0x00, 0xFF, 0x0A] = [34, 21, 1, 14, 17, 48, 3, 63, 2, 32]"
  by (simp add: Let_def)

lemma example_characters:
  "map (\<lambda>v. b64alphabet ! v) [34, 21, 1, 14, 17, 48, 3, 63, 2, 32] = ''iVBORwD/Cg''"
  by (simp add: b64alphabet_def)

lemma example_padding:
  "replicate ((3 - length [0x89, 0x50, 0x4E, 0x47, 0x00, 0xFF, 0x0A :: byte] mod 3) mod 3) CHR ''=''
     = ''==''"
  by (simp add: numeral_2_eq_2)

lemma example_base64Encode:
  "base64Encode [0x89, 0x50, 0x4E, 0x47, 0x00, 0xFF, 0x0A] = ''iVBORwD/Cg==''"
  unfolding base64Encode_def
  by (simp only: example_sextets example_characters example_padding append.simps)

theorem base64_roundtrip_witness:
  "CHR '','' \<notin> set ''image/png'' \<and>
   fileToBase64 \<lparr>fileType = ''image/png'', fileBytes = [0x89, 0x50, 0x4E, 0x47, 0x00, 0xFF, 0x0A]\<rparr> OnLoad
     = Inr (JStr ''iVBORwD/Cg=='') \<and>
   base64ToArrayBuffer ''iVBORwD/Cg=='' = Inr [0x89, 0x50, 0x4E, 0x47, 0x00, 0xFF, 0x0A]"
proof -
  let ?f = "\<lparr>fileType = ''image/png'', fileBytes = [0x89, 0x50, 0x4E, 0x47, 0x00, 0xFF, 0x0A :: byte]\<rparr>"
  have c: "CHR '','' \<notin> set (fileType ?f)" by simp
  from base64_roundtrip [OF c] obtain s where
    enc: "fileToBase64 ?f OnLoad = Inr (JStr s)" and
    dec: "base64ToArrayBuffer s = Inr (fileBytes ?f)"
    by blast
  have "fileToBase64 ?f OnLoad = Inr (JStr ''iVBORwD/Cg=='')"
    using fileToBase64_payload [OF c] by (simp add: example_base64Encode)
  with enc have s: "s = ''iVBORwD/Cg==''" by simp
  from c enc dec show ?thesis unfolding s by simp
qed

section \<open>The analysis: what a response changes\<close>

lemma getProp_value: "\<not> nullish p \<Longrightarrow> getProp p k = Inr (ownProp p k)"
  by (simp add: getProp_def)

lemma allPass_value:
  "\<not> nullish p \<Longrightarrow>
   allPass p = Inr (ownProp p ''status'' = JStr ''pass'' \<and>
                    ownProp p ''zedgeViolationStatus'' = JStr ''pass'' \<and>
                    ownProp p ''womenPolicyStatus'' = JStr ''pass'' \<and>
                    ownProp p ''kidsViolationStatus'' = JStr ''pass'')"
  by (simp add: allPass_def getProp_value)

lemma populate_nullish:
  "nullish p \<Longrightarrow>
   populate p st =
     (Inl (TypeError (''Cannot read properties of '' @ toString p @ '' (reading ''
                      @ [CHR 0x27] @ ''status'' @ [CHR 0x27] @ '')'')), st)"
  by (simp add: populate_def seq_def setFrom_def getProp_def)

lemma populate_value:
  assumes "\<not> nullish p"
  shows "populate p st =
    (Inr (),
     (let st = st\<lparr>copyrightStatus := ownProp p ''status'',
                   copyrightDescription := ownProp p ''copyrightDescription'',
                   zedgeViolationStatus := ownProp p ''zedgeViolationStatus'',
                   zedgeViolationDescription := ownProp p ''zedgeViolationDescription'',
                   womenPolicyStatus := ownProp p ''womenPolicyStatus'',
                   womenPolicyDescription := ownProp p ''womenPolicyDescription'',
                   kidsViolationStatus := ownProp p ''kidsViolationStatus'',
                   kidsViolationDescription := ownProp p ''kidsViolationDescription''\<rparr>
      in if ownProp p ''status'' = JStr ''pass'' \<and>
            ownProp p ''zedgeViolationStatus'' = JStr ''pass'' \<and>
            ownProp p ''womenPolicyStatus'' = JStr ''pass'' \<and>
            ownProp p ''kidsViolationStatus'' = JStr ''pass''
         then st\<lparr>title := ownProp p ''title'',
                 imageDescription := ownProp p ''imageDescription'',
                 tags := (if truthy (ownProp p ''tags'') then ownProp p ''tags'' else JArr [])\<rparr>
         else st))"
proof -
  define b where "b \<longleftrightarrow> ownProp p ''status'' = JStr ''pass'' \<and>
            ownProp p ''zedgeViolationStatus'' = JStr ''pass'' \<and>
            ownProp p ''womenPolicyStatus'' = JStr ''pass'' \<and>
            ownProp p ''kidsViolationStatus'' = JStr ''pass''"
  have ap: "allPass p = Inr b"
    using allPass_value [OF assms] by (simp only: b_def)
  have "populate p st =
    (Inr (),
     (let st = st\<lparr>copyrightStatus := ownProp p ''status'',
                   copyrightDescription := ownProp p ''copyrightDescription'',
                   zedgeViolationStatus := ownProp p ''zedgeViolationStatus'',
                   zedgeViolationDescription := ownProp p ''zedgeViolationDescription'',
                   womenPolicyStatus := ownProp p ''womenPolicyStatus'',
                   womenPolicyDescription := ownProp p ''womenPolicyDescription'',
                   kidsViolationStatus := ownProp p ''kidsViolationStatus'',
                   kidsViolationDescription := ownProp p ''kidsViolationDescription''\<rparr>
      in if b
         then st\<lparr>title := ownProp p ''title'',
                 imageDescription := ownProp p ''imageDescription'',
                 tags := (if truthy (ownProp p ''tags'') then ownProp p ''tags'' else JArr [])\<rparr>
         else st))"
    using assms
    by (cases b) (simp_all add: populate_def seq_def setFrom_def getProp_value ap Let_def)
  then show ?thesis by (simp only: b_def)
qed

lemma analyzeEnd_thrown:
  "analyzeEnd (Inl e) st =
     st\<lparr>error := Some (''An error occurred during AI analysis: '' @ message e),
        modalContent := ''An error occurred during AI analysis: '' @ message e,
        isModalOpen := True, loading := False\<rparr>"
  by (simp add: analyzeEnd_def showModal_def)

lemma analyzeEnd_nullish:
  "nullish p \<Longrightarrow>
   analyzeEnd (Inr p) st =
     analyzeEnd (Inl (TypeError (''Cannot read properties of '' @ toString p @ '' (reading ''
                      @ [CHR 0x27] @ ''status'' @ [CHR 0x27] @ '')''))) st"
  by (simp add: analyzeEnd_def populate_nullish)

lemma analyzeEnd_value:
  "\<not> nullish p \<Longrightarrow> analyzeEnd (Inr p) st = (snd (populate p st))\<lparr>loading := False\<rparr>"
  by (simp add: analyzeEnd_def populate_value)

lemma analyzeImageWithAI_Some:
  "imageFile st = Some f \<Longrightarrow>
   analyzeImageWithAI ev reply st =
     analyzeEnd (andThen (fileToBase64 f ev) (\<lambda>base64Data. reply)) (resetState (st\<lparr>loading := True\<rparr>))"
  by (simp add: analyzeImageWithAI_def analyzeBegin_def resetState_def)

lemma analyzeImageWithAI_None:
  "imageFile st = None \<Longrightarrow>
   analyzeImageWithAI ev reply st = showModal ''Please upload an image first.'' st"
  by (simp add: analyzeImageWithAI_def analyzeBegin_def)

lemma read_outcome:
  "andThen (fileToBase64 f OnError) (\<lambda>base64Data. reply) = Inl ProgressEvent"
  "andThen (fileToBase64 f OnLoad) (\<lambda>base64Data. reply) = reply"
  by (simp_all add: fileToBase64_def)

lemma all_verdicts:
  "list_all (\<lambda>k. ownProp p k = v) verdictKeys \<longleftrightarrow>
     ownProp p ''status'' = v \<and> ownProp p ''zedgeViolationStatus'' = v \<and>
     ownProp p ''womenPolicyStatus'' = v \<and> ownProp p ''kidsViolationStatus'' = v"
  by (simp add: verdictKeys_def)

lemma some_verdict:
  "list_ex (\<lambda>k. ownProp p k = v) verdictKeys \<longleftrightarrow>
     ownProp p ''status'' = v \<or> ownProp p ''zedgeViolationStatus'' = v \<or>
     ownProp p ''womenPolicyStatus'' = v \<or> ownProp p ''kidsViolationStatus'' = v"
  by (simp add: verdictKeys_def)

lemma nullish_no_verdict: "nullish p \<Longrightarrow> ownProp p k = JUndefined"
  by (cases p) simp_all

lemma metadata_after_value:
  assumes "\<not> nullish p"
  shows "title (analyzeEnd (Inr p) st) =
           (if list_all (\<lambda>k. ownProp p k = JStr ''pass'') verdictKeys then ownProp p ''title'' else title st)"
    and "imageDescription (analyzeEnd (Inr p) st) =
           (if list_all (\<lambda>k. ownProp p k = JStr ''pass'') verdictKeys then ownProp p ''imageDescription''
            else imageDescription st)"
    and "tags (analyzeEnd (Inr p) st) =
           (if list_all (\<lambda>k. ownProp p k = JStr ''pass'') verdictKeys
            then (if truthy (ownProp p ''tags'') then ownProp p ''tags'' else JArr [])
            else tags st)"
    and "error (analyzeEnd (Inr p) st) = error st"
  using assms by (simp_all add: analyzeEnd_value populate_value all_verdicts Let_def)

lemma metadata_after_throw:
  "title (analyzeEnd (Inl e) st) = title st"
  "imageDescription (analyzeEnd (Inl e) st) = imageDescription st"
  "tags (analyzeEnd (Inl e) st) = tags st"
  by (simp_all add: analyzeEnd_thrown)

lemma metadata_reset:
  "title (resetState st) = JNull" "imageDescription (resetState st) = JNull"
  "tags (resetState st) = JArr []" "error (resetState st) = None"
  by (simp_all add: resetState_def)

lemma declaredShape_not_nullish: "declaredShape p \<Longrightarrow> \<not> nullish p"
  by (cases p) (simp_all add: declaredShape_def)

lemma error_after_throw:
  "error (analyzeEnd (Inl e) st) = Some (''An error occurred during AI analysis: '' @ message e)"
  "isModalOpen (analyzeEnd (Inl e) st)"
  "modalContent (analyzeEnd (Inl e) st) = ''An error occurred during AI analysis: '' @ message e"
  by (simp_all add: analyzeEnd_thrown)

lemma imageFile_handleFileSelect:
  "startsWith (fileType f) ''image/'' \<Longrightarrow> imageFile (handleFileSelect (Some f) st) = Some f"
  by (simp add: handleFileSelect_def createObjectURL_def resetState_def Let_def)

lemma imageFile_analyzeImageWithAI:
  "imageFile (analyzeImageWithAI ev reply st) = imageFile st"
proof (cases "imageFile st")
  case None
  then show ?thesis by (simp add: analyzeImageWithAI_None showModal_def)
next
  case (Some f)
  have "imageFile (analyzeEnd r s) = imageFile s" for r s
  proof (cases r)
    case (Inl e)
    then show ?thesis by (simp add: analyzeEnd_thrown)
  next
    case (Inr p)
    then show ?thesis
      by (cases "nullish p") (simp_all add: analyzeEnd_nullish analyzeEnd_thrown analyzeEnd_value populate_value Let_def)
  qed
  then show ?thesis using Some by (simp add: analyzeImageWithAI_Some resetState_def)
qed

subsection \<open>One whole call\<close>

lemma metadata_gating_call:
  "(let st' = analyzeImageWithAI ev reply st in
     (imageFile st = None \<longrightarrow>
        title st' = title st \<and> imageDescription st' = imageDescription st \<and> tags st' = tags st) \<and>
     (imageFile st \<noteq> None \<longrightarrow>
        (\<not> (ev = OnLoad \<and> (case reply of Inl e \<Rightarrow> False
                             | Inr p \<Rightarrow> list_all (\<lambda>k. ownProp p k = JStr ''pass'') verdictKeys)) \<longrightarrow>
           title st' = JNull \<and> imageDescription st' = JNull \<and> tags st' = JArr []) \<and>
        (\<forall>p. reply = Inr p \<and> list_ex (\<lambda>k. ownProp p k = JStr ''found'') verdictKeys \<longrightarrow>
           title st' = JNull \<and> imageDescription st' = JNull \<and> tags st' = JArr []) \<and>
        (\<forall>p. ev = OnLoad \<and> reply = Inr p \<and> list_all (\<lambda>k. ownProp p k = JStr ''pass'') verdictKeys \<longrightarrow>
           title st' = ownProp p ''title'' \<and>
           imageDescription st' = ownProp p ''imageDescription'' \<and>
           tags st' = (if truthy (ownProp p ''tags'') then ownProp p ''tags'' else JArr []) \<and>
           error st' = None) \<and>
        (\<forall>p. ev = OnLoad \<and> reply = Inr p \<and> list_all (\<lambda>k. ownProp p k = JStr ''pass'') verdictKeys \<and>
             ownProp p ''tags'' = JUndefined \<longrightarrow>
           tags st' = JArr [] \<and> error st' = None)))"
proof (cases "imageFile st")
  case None
  then show ?thesis
    by (simp add: analyzeImageWithAI_None showModal_def)
next
  case (Some f)
  let ?st0 = "resetState (st\<lparr>loading := True\<rparr>)"
  let ?pass = "\<lambda>p. list_all (\<lambda>k. ownProp p k = JStr ''pass'') verdictKeys"
  have run: "analyzeImageWithAI ev reply st =
               analyzeEnd (andThen (fileToBase64 f ev) (\<lambda>base64Data. reply)) ?st0" for ev reply
    using Some by (rule analyzeImageWithAI_Some)
  have empty_thrown: "title (analyzeEnd (Inl e) ?st0) = JNull \<and>
      imageDescription (analyzeEnd (Inl e) ?st0) = JNull \<and> tags (analyzeEnd (Inl e) ?st0) = JArr []" for e
    by (simp add: metadata_after_throw metadata_reset)
  have empty_nullish: "title (analyzeEnd (Inr p) ?st0) = JNull \<and>
      imageDescription (analyzeEnd (Inr p) ?st0) = JNull \<and> tags (analyzeEnd (Inr p) ?st0) = JArr []"
    if "nullish p" for p
    using that by (simp add: analyzeEnd_nullish metadata_after_throw metadata_reset)
  have empty_fail: "title (analyzeEnd (Inr p) ?st0) = JNull \<and>
      imageDescription (analyzeEnd (Inr p) ?st0) = JNull \<and> tags (analyzeEnd (Inr p) ?st0) = JArr []"
    if "\<not> ?pass p" for p
  proof (cases "nullish p")
    case True
    then show ?thesis by (rule empty_nullish)
  next
    case False
    then show ?thesis using that by (simp add: metadata_after_value metadata_reset)
  qed
  have filled: "title (analyzeEnd (Inr p) ?st0) = ownProp p ''title'' \<and>
      imageDescription (analyzeEnd (Inr p) ?st0) = ownProp p ''imageDescription'' \<and>
      tags (analyzeEnd (Inr p) ?st0) = (if truthy (ownProp p ''tags'') then ownProp p ''tags'' else JArr []) \<and>
      error (analyzeEnd (Inr p) ?st0) = None"
    if "?pass p" for p
  proof -
    have "\<not> nullish p"
      using that nullish_no_verdict [of p "''status''"] by (auto simp: all_verdicts)
    then show ?thesis using that by (simp add: metadata_after_value metadata_reset)
  qed
  have found_not_pass: "\<not> ?pass p" if "list_ex (\<lambda>k. ownProp p k = JStr ''found'') verdictKeys" for p
    using that by (auto simp: all_verdicts some_verdict)
  have A: "\<not> (ev = OnLoad \<and> (case reply of Inl e \<Rightarrow> False | Inr p \<Rightarrow> ?pass p)) \<longrightarrow>
           title (analyzeImageWithAI ev reply st) = JNull \<and>
           imageDescription (analyzeImageWithAI ev reply st) = JNull \<and>
           tags (analyzeImageWithAI ev reply st) = JArr []"
  proof (cases ev)
    case OnError
    then show ?thesis by (simp add: run read_outcome empty_thrown)
  next
    case OnLoad
    show ?thesis
    proof (cases reply)
      case (Inl e)
      then show ?thesis by (simp add: OnLoad run read_outcome empty_thrown)
    next
      case (Inr p)
      then show ?thesis using empty_fail [of p]
        by (simp add: OnLoad run read_outcome)
    qed
  qed
  have B: "\<forall>p. reply = Inr p \<and> list_ex (\<lambda>k. ownProp p k = JStr ''found'') verdictKeys \<longrightarrow>
           title (analyzeImageWithAI ev reply st) = JNull \<and>
           imageDescription (analyzeImageWithAI ev reply st) = JNull \<and>
           tags (analyzeImageWithAI ev reply st) = JArr []"
  proof (intro allI impI, elim conjE)
    fix p assume r: "reply = Inr p" and "list_ex (\<lambda>k. ownProp p k = JStr ''found'') verdictKeys"
    then have "\<not> ?pass p" by (simp add: found_not_pass)
    then show "title (analyzeImageWithAI ev reply st) = JNull \<and>
           imageDescription (analyzeImageWithAI ev reply st) = JNull \<and>
           tags (analyzeImageWithAI ev reply st) = JArr []"
      using A r by simp
  qed
  have C: "\<forall>p. ev = OnLoad \<and> reply = Inr p \<and> ?pass p \<longrightarrow>
           title (analyzeImageWithAI ev reply st) = ownProp p ''title'' \<and>
           imageDescription (analyzeImageWithAI ev reply st) = ownProp p ''imageDescription'' \<and>
           tags (analyzeImageWithAI ev reply st)
             = (if truthy (ownProp p ''tags'') then ownProp p ''tags'' else JArr []) \<and>
           error (analyzeImageWithAI ev reply st) = None"
    using filled by (simp add: run read_outcome)
  have D: "\<forall>p. ev = OnLoad \<and> reply = Inr p \<and> ?pass p \<and> ownProp p ''tags'' = JUndefined \<longrightarrow>
           tags (analyzeImageWithAI ev reply st) = JArr [] \<and> error (analyzeImageWithAI ev reply st) = None"
    using C by simp
  show ?thesis
    unfolding Let_def using Some A B C D by simp
qed

lemma failed_call_leaves_reset_state:
  assumes "imageFile st = Some f"
    and "ev = OnError \<or> (case reply of Inl e \<Rightarrow> True | Inr p \<Rightarrow> nullish p)"
  shows
    "(let st' = analyzeImageWithAI ev reply st in
       copyrightStatus st' = JNull \<and> copyrightDescription st' = JNull \<and>
       zedgeViolationStatus st' = JNull \<and> zedgeViolationDescription st' = JNull \<and>
       womenPolicyStatus st' = JNull \<and> womenPolicyDescription st' = JNull \<and>
       kidsViolationStatus st' = JNull \<and> kidsViolationDescription st' = JNull \<and>
       title st' = JNull \<and> imageDescription st' = JNull \<and> tags st' = JArr [] \<and>
       error st' \<noteq> None \<and> loading st' = False)"
proof -
  let ?st0 = "resetState (st\<lparr>loading := True\<rparr>)"
  have run: "analyzeImageWithAI ev reply st =
               analyzeEnd (andThen (fileToBase64 f ev) (\<lambda>base64Data. reply)) ?st0" for ev reply
    using assms(1) by (rule analyzeImageWithAI_Some)
  have "\<exists>e. andThen (fileToBase64 f ev) (\<lambda>base64Data. reply) = Inl e \<or>
            (\<exists>p. nullish p \<and> andThen (fileToBase64 f ev) (\<lambda>base64Data. reply) = Inr p)"
    using assms(2) by (cases ev; cases reply) (auto simp: read_outcome)
  then obtain e where "analyzeImageWithAI ev reply st = analyzeEnd (Inl e) ?st0"
    unfolding run using analyzeEnd_nullish by metis
  then show ?thesis
    by (simp add: Let_def analyzeEnd_thrown resetState_def)
qed

section \<open>What holds after every sequence of events\<close>

lemma analyzeEnd_frame:
  "analyses (analyzeEnd r st) = analyses st \<and> loading (analyzeEnd r st) = False"
proof (cases r)
  case (Inl e)
  then show ?thesis by (simp add: analyzeEnd_thrown)
next
  case (Inr p)
  then show ?thesis
    by (cases "nullish p")
      (simp_all add: analyzeEnd_nullish analyzeEnd_thrown analyzeEnd_value populate_value Let_def)
qed

lemma length_dropAt: "i < length xs \<Longrightarrow> length (dropAt i xs) = length xs - 1"
  by (simp add: dropAt_def)

lemma cells_resetState:
  "verdictsCleared (resetState st)" "metadataCleared (resetState st)" "error (resetState st) = None"
  by (simp_all add: resetState_def verdictsCleared_def metadataCleared_def)

lemma cells_analyzeEnd_thrown:
  "verdictsCleared (analyzeEnd (Inl e) st) = verdictsCleared st"
  "metadataCleared (analyzeEnd (Inl e) st) = metadataCleared st"
  "verdictsPass (analyzeEnd (Inl e) st) = verdictsPass st"
  "error (analyzeEnd (Inl e) st) \<noteq> None"
  by (simp_all add: analyzeEnd_thrown verdictsCleared_def metadataCleared_def verdictsPass_def)

lemma cells_analyzeEnd_value:
  assumes "\<not> nullish p"
  shows "metadataCleared st \<Longrightarrow> \<not> metadataCleared (analyzeEnd (Inr p) st) \<Longrightarrow>
           verdictsPass (analyzeEnd (Inr p) st)"
    and "error (analyzeEnd (Inr p) st) = error st"
  using assms
  by (auto simp: analyzeEnd_value populate_value metadataCleared_def verdictsPass_def Let_def
      split: if_splits)

lemma analyzeEnd_settles:
  assumes "pageInvariant st" and "i < length (analyses st)"
  shows "pageInvariant (analyzeEnd r (st\<lparr>analyses := dropAt i (analyses st)\<rparr>))"
proof -
  let ?st = "st\<lparr>analyses := dropAt i (analyses st)\<rparr>"
  from assms have one: "length (analyses st) = 1" by (auto simp: pageInvariant_def)
  then have d: "dropAt i (analyses st) = []" using length_dropAt [OF assms(2)] by simp
  from assms one have c: "verdictsCleared st" "metadataCleared st" "error st = None"
    by (auto simp: pageInvariant_def)
  then have c': "verdictsCleared ?st" "metadataCleared ?st" "error ?st = None"
    by (simp_all add: verdictsCleared_def metadataCleared_def)
  have a: "analyses (analyzeEnd r ?st) = []" "\<not> loading (analyzeEnd r ?st)"
    using analyzeEnd_frame [of r ?st] d by simp_all
  show ?thesis
  proof (cases r)
    case (Inl e)
    then show ?thesis using a c' by (simp add: pageInvariant_def cells_analyzeEnd_thrown)
  next
    case (Inr p)
    show ?thesis
    proof (cases "nullish p")
      case True
      then show ?thesis using a c' Inr
        by (simp add: pageInvariant_def analyzeEnd_nullish cells_analyzeEnd_thrown)
    next
      case False
      then show ?thesis using a c' Inr cells_analyzeEnd_value [OF False, of ?st]
        by (auto simp: pageInvariant_def)
    qed
  qed
qed

lemma fire_keeps_invariant:
  assumes "pageInvariant st"
  shows "pageInvariant (fire apiKey ev st)"
proof (cases ev)
  case (FileChosen chosen)
  then show ?thesis using assms
    by (auto simp: pageInvariant_def handleFileSelect_def resetState_def createObjectURL_def
        verdictsCleared_def metadataCleared_def verdictsPass_def Let_def split: option.splits)
next
  case ClearClicked
  then show ?thesis using assms
    by (auto simp: pageInvariant_def handleClear_def resetState_def revokeObjectURL_def
        verdictsCleared_def metadataCleared_def verdictsPass_def Let_def split: option.splits)
next
  case AnalysisClicked
  show ?thesis
  proof (cases "loading st \<or> imageFile st = None")
    case True
    then show ?thesis using assms AnalysisClicked by simp
  next
    case False
    then obtain f where f: "imageFile st = Some f" by auto
    from False assms have e: "analyses st = []" by (auto simp: pageInvariant_def)
    have "fire apiKey ev st = (resetState (st\<lparr>loading := True\<rparr>))\<lparr>analyses := [Reading f]\<rparr>"
      using AnalysisClicked False f e by (simp add: analyzeBegin_def resetState_def Let_def)
    then show ?thesis
      by (simp add: pageInvariant_def resetState_def verdictsCleared_def metadataCleared_def)
  qed
next
  case (ReaderSettled i rev)
  show ?thesis
  proof (cases "i < length (analyses st)")
    case False
    then show ?thesis using assms ReaderSettled by simp
  next
    case True
    with assms have one: "length (analyses st) = 1" and i: "i = 0" by (auto simp: pageInvariant_def)
    show ?thesis
    proof (cases "analyses st ! i")
      case (Reading f)
      show ?thesis
      proof (cases "fileToBase64 f rev")
        case (Inl e)
        then show ?thesis
          using ReaderSettled True Reading analyzeEnd_settles [OF assms True, of "Inl e"] by simp
      next
        case (Inr base64Data)
        then show ?thesis
          using ReaderSettled True Reading assms one
          by (auto simp: pageInvariant_def verdictsCleared_def metadataCleared_def verdictsPass_def)
      qed
    next
      case (Requesting d t)
      then show ?thesis using ReaderSettled True assms by simp
    qed
  qed
next
  case (ModelSettled i reply)
  show ?thesis
  proof (cases "i < length (analyses st)")
    case False
    then show ?thesis using assms ModelSettled by simp
  next
    case True
    show ?thesis
    proof (cases "analyses st ! i")
      case (Reading f)
      then show ?thesis using ModelSettled True assms by simp
    next
      case (Requesting d t)
      then show ?thesis
        using ModelSettled True analyzeEnd_settles [OF assms True, of reply] by simp
    qed
  qed
next
  case SpeakTitleClicked
  then show ?thesis using assms
    by (auto simp: pageInvariant_def speakBegin_def showModal_def
        verdictsCleared_def metadataCleared_def verdictsPass_def Let_def)
next
  case SpeakDescriptionClicked
  then show ?thesis using assms
    by (auto simp: pageInvariant_def speakBegin_def showModal_def
        verdictsCleared_def metadataCleared_def verdictsPass_def Let_def)
next
  case (FetchSettled fetched)
  then show ?thesis using assms
    by (auto simp: pageInvariant_def speakEnd_def showModal_def createObjectURL_def
        verdictsCleared_def metadataCleared_def verdictsPass_def Let_def split: sum.splits)
next
  case (PlayRejected audioUrl e)
  then show ?thesis using assms
    by (auto simp: pageInvariant_def playRejected_def showModal_def
        verdictsCleared_def metadataCleared_def verdictsPass_def Let_def)
next
  case (Ended audioUrl)
  then show ?thesis using assms
    by (auto simp: pageInvariant_def onended_def revokeObjectURL_def
        verdictsCleared_def metadataCleared_def verdictsPass_def Let_def)
next
  case (CopySettled written)
  then show ?thesis using assms
    by (auto simp: pageInvariant_def copySettled_def showModal_def
        verdictsCleared_def metadataCleared_def verdictsPass_def)
next
  case ModalClosed
  then show ?thesis using assms
    by (auto simp: pageInvariant_def closeModal_def
        verdictsCleared_def metadataCleared_def verdictsPass_def)
qed


lemma run_snoc: "run apiKey (events @ [ev]) = fire apiKey ev (run apiKey events)"
  by (simp add: run_def)

lemma run_invariant: "pageInvariant (run apiKey events)"
proof (induction events rule: rev_induct)
  case Nil
  then show ?case
    by (simp add: run_def initialApp_def pageInvariant_def verdictsCleared_def metadataCleared_def)
next
  case (snoc ev events)
  then show ?case by (simp only: run_snoc fire_keeps_invariant)
qed

lemma analysis_trace:
  assumes "startsWith (fileType img) ''image/''" and "CHR '','' \<notin> set (fileType img)"
  shows "run apiKey [FileChosen (Some img), AnalysisClicked, ReaderSettled 0 OnLoad, ModelSettled 0 reply]
           = analyzeEnd reply ((resetState (handleFileSelect (Some img) initialApp))\<lparr>loading := True\<rparr>)"
proof -
  define s1 where "s1 = handleFileSelect (Some img) initialApp"
  have p1: "imageFile s1 = Some img" "\<not> loading s1" "analyses s1 = []"
    using assms(1)
    by (simp_all add: s1_def handleFileSelect_def resetState_def createObjectURL_def initialApp_def Let_def)
  define s2 where "s2 = (resetState s1)\<lparr>loading := True\<rparr>"
  have p2: "analyses s2 = []" using p1 by (simp add: s2_def resetState_def)
  have f2: "fire apiKey AnalysisClicked s1 = s2\<lparr>analyses := [Reading img]\<rparr>"
    using p1 by (simp add: s2_def analyzeBegin_def resetState_def Let_def)
  have f3: "fire apiKey (ReaderSettled 0 OnLoad) (s2\<lparr>analyses := [Reading img]\<rparr>)
              = s2\<lparr>analyses := [Requesting (JStr (base64Encode (fileBytes img))) (fileType img)]\<rparr>"
    by (simp add: fileToBase64_payload [OF assms(2)])
  have f4: "fire apiKey (ModelSettled 0 reply)
              (s2\<lparr>analyses := [Requesting (JStr (base64Encode (fileBytes img))) (fileType img)]\<rparr>)
              = analyzeEnd reply s2"
  proof -
    have "s2\<lparr>analyses := []\<rparr> = s2" using p2 by simp
    then show ?thesis by (simp add: dropAt_def)
  qed
  have "run apiKey [FileChosen (Some img), AnalysisClicked, ReaderSettled 0 OnLoad, ModelSettled 0 reply]
          = fire apiKey (ModelSettled 0 reply) (fire apiKey (ReaderSettled 0 OnLoad)
              (fire apiKey AnalysisClicked (fire apiKey (FileChosen (Some img)) initialApp)))"
    by (simp only: run_def foldl.simps)
  also have "\<dots> = fire apiKey (ModelSettled 0 reply) (fire apiKey (ReaderSettled 0 OnLoad)
              (fire apiKey AnalysisClicked s1))"
    by (simp only: fire.simps s1_def)
  also have "\<dots> = analyzeEnd reply s2"
    by (simp only: f2 f3 f4)
  finally show ?thesis by (simp only: s2_def s1_def)
qed

section \<open>The claims about the analysis\<close>

text \<open>
  Claim C2. After a call of \<open>analyzeImageWithAI\<close>, the title, description and tags hold
  values of the response only if the read of the file succeeded and all four verdict
  fields of the response (\<open>status\<close>, \<open>zedgeViolationStatus\<close>, \<open>womenPolicyStatus\<close>,
  \<open>kidsViolationStatus\<close>) equal \<open>'pass'\<close>; otherwise they are in the cleared state
  (\<open>null\<close>, \<open>null\<close>, the empty array). In particular a response with a verdict
  \<open>'found'\<close> leaves them cleared whatever title, description and tags it carries. With
  all four verdicts \<open>'pass'\<close> they are set from the response, the tags to the empty
  array when the response has none, and the call does not fail. A call without a selected
  image returns at the guard and leaves all three as they were. And as an invariant of the
  page: after every sequence of events, the metadata cells are other than cleared only
  if the four verdict cells are \<open>'pass'\<close>.
\<close>

theorem metadata_gating:
  "(let st' = analyzeImageWithAI ev reply st in
     (imageFile st = None \<longrightarrow>
        title st' = title st \<and> imageDescription st' = imageDescription st \<and> tags st' = tags st) \<and>
     (imageFile st \<noteq> None \<longrightarrow>
        (\<not> (ev = OnLoad \<and> (case reply of Inl e \<Rightarrow> False
                             | Inr p \<Rightarrow> list_all (\<lambda>k. ownProp p k = JStr ''pass'') verdictKeys)) \<longrightarrow>
           title st' = JNull \<and> imageDescription st' = JNull \<and> tags st' = JArr []) \<and>
        (\<forall>p. reply = Inr p \<and> list_ex (\<lambda>k. ownProp p k = JStr ''found'') verdictKeys \<longrightarrow>
           title st' = JNull \<and> imageDescription st' = JNull \<and> tags st' = JArr []) \<and>
        (\<forall>p. ev = OnLoad \<and> reply = Inr p \<and> list_all (\<lambda>k. ownProp p k = JStr ''pass'') verdictKeys \<longrightarrow>
           title st' = ownProp p ''title'' \<and>
           imageDescription st' = ownProp p ''imageDescription'' \<and>
           tags st' = (if truthy (ownProp p ''tags'') then ownProp p ''tags'' else JArr []) \<and>
           error st' = None) \<and>
        (\<forall>p. ev = OnLoad \<and> reply = Inr p \<and> list_all (\<lambda>k. ownProp p k = JStr ''pass'') verdictKeys \<and>
             ownProp p ''tags'' = JUndefined \<longrightarrow>
           tags st' = JArr [] \<and> error st' = None))) \<and>
   (let st = run apiKey events in \<not> metadataCleared st \<longrightarrow> verdictsPass st)"
proof (rule conjI [OF metadata_gating_call])
  show "let st = run apiKey events in \<not> metadataCleared st \<longrightarrow> verdictsPass st"
    using run_invariant [of apiKey events] by (simp add: pageInvariant_def Let_def)
qed

text \<open>
  The example of the specification: one verdict \<open>'found'\<close> and a title in the payload
  leave the metadata empty; four verdicts \<open>'pass'\<close> and no tags give the title and the
  empty array of tags. And the page after an image was chosen, analysed and found to pass:
  metadata is shown, over four verdicts \<open>'pass'\<close>.
\<close>

theorem metadata_gating_witness:
  "(let st = handleFileSelect (Some \<lparr>fileType = ''image/png'', fileBytes = [0x89, 0x50]\<rparr>) initialApp;
        found = JObj [(''status'', JStr ''found''), (''zedgeViolationStatus'', JStr ''pass''),
                      (''womenPolicyStatus'', JStr ''pass''), (''kidsViolationStatus'', JStr ''pass''),
                      (''title'', JStr ''X'')];
        passed = JObj [(''status'', JStr ''pass''), (''zedgeViolationStatus'', JStr ''pass''),
                       (''womenPolicyStatus'', JStr ''pass''), (''kidsViolationStatus'', JStr ''pass''),
                       (''title'', JStr ''A fox in a field'')]
    in imageFile st \<noteq> None \<and>
       list_ex (\<lambda>k. ownProp found k = JStr ''found'') verdictKeys \<and>
       title (analyzeImageWithAI OnLoad (Inr found) st) = JNull \<and>
       imageDescription (analyzeImageWithAI OnLoad (Inr found) st) = JNull \<and>
       tags (analyzeImageWithAI OnLoad (Inr found) st) = JArr [] \<and>
       list_all (\<lambda>k. ownProp passed k = JStr ''pass'') verdictKeys \<and>
       ownProp passed ''tags'' = JUndefined \<and>
       title (analyzeImageWithAI OnLoad (Inr passed) st) = JStr ''A fox in a field'' \<and>
       tags (analyzeImageWithAI OnLoad (Inr passed) st) = JArr [] \<and>
       error (analyzeImageWithAI OnLoad (Inr passed) st) = None \<and>
       \<not> metadataCleared
           (run None [FileChosen (Some \<lparr>fileType = ''image/png'', fileBytes = [0x89, 0x50]\<rparr>),
                      AnalysisClicked, ReaderSettled 0 OnLoad, ModelSettled 0 (Inr passed)]) \<and>
       verdictsPass
           (run None [FileChosen (Some \<lparr>fileType = ''image/png'', fileBytes = [0x89, 0x50]\<rparr>),
                      AnalysisClicked, ReaderSettled 0 OnLoad, ModelSettled 0 (Inr passed)]))"
proof -
  define img where "img = \<lparr>fileType = ''image/png'', fileBytes = [0x89, 0x50 :: byte]\<rparr>"
  define st where "st = handleFileSelect (Some img) initialApp"
  define found where "found = JObj [(''status'', JStr ''found''), (''zedgeViolationStatus'', JStr ''pass''),
                      (''womenPolicyStatus'', JStr ''pass''), (''kidsViolationStatus'', JStr ''pass''),
                      (''title'', JStr ''X'')]"
  define passed where "passed = JObj [(''status'', JStr ''pass''), (''zedgeViolationStatus'', JStr ''pass''),
                       (''womenPolicyStatus'', JStr ''pass''), (''kidsViolationStatus'', JStr ''pass''),
                       (''title'', JStr ''A fox in a field'')]"
  have img: "imageFile st \<noteq> None"
    by (simp add: st_def img_def imageFile_handleFileSelect startsWith_def)
  have f: "list_ex (\<lambda>k. ownProp found k = JStr ''found'') verdictKeys"
    by (simp add: found_def verdictKeys_def)
  have p: "list_all (\<lambda>k. ownProp passed k = JStr ''pass'') verdictKeys"
    by (simp add: passed_def verdictKeys_def)
  have t: "ownProp passed ''tags'' = JUndefined" "ownProp passed ''title'' = JStr ''A fox in a field''"
    by (simp_all add: passed_def)
  have 1: "title (analyzeImageWithAI OnLoad (Inr found) st) = JNull \<and>
       imageDescription (analyzeImageWithAI OnLoad (Inr found) st) = JNull \<and>
       tags (analyzeImageWithAI OnLoad (Inr found) st) = JArr []"
    using metadata_gating [of OnLoad "Inr found" st, THEN conjunct1, unfolded Let_def] img f by blast
  have 2: "title (analyzeImageWithAI OnLoad (Inr passed) st) = ownProp passed ''title'' \<and>
       tags (analyzeImageWithAI OnLoad (Inr passed) st) = JArr [] \<and>
       error (analyzeImageWithAI OnLoad (Inr passed) st) = None"
    using metadata_gating [of OnLoad "Inr passed" st, THEN conjunct1, unfolded Let_def] img p t(1) by blast
  define tr where "tr = [FileChosen (Some img), AnalysisClicked, ReaderSettled 0 OnLoad,
                         ModelSettled 0 (Inr passed)]"
  have np: "\<not> nullish passed" by (simp add: passed_def)
  have "run None tr = analyzeEnd (Inr passed) ((resetState (handleFileSelect (Some img) initialApp))\<lparr>loading := True\<rparr>)"
    unfolding tr_def by (rule analysis_trace) (simp_all add: img_def startsWith_def)
  then have "title (run None tr) = JStr ''A fox in a field''"
    using p t(2) by (simp add: metadata_after_value [OF np])
  then have 3: "\<not> metadataCleared (run None tr)"
    by (simp add: metadataCleared_def)
  then have 4: "verdictsPass (run None tr)"
    using metadata_gating [of _ _ _ None tr, THEN conjunct2, unfolded Let_def] by blast
  show ?thesis
    unfolding Let_def img_def [symmetric] st_def [symmetric] found_def [symmetric]
      passed_def [symmetric] tr_def [symmetric]
    using img f p t 1 2 3 4 by simp
qed

text \<open>
  Claim C3, as the code has it. A call of \<open>analyzeImageWithAI\<close> on a selected image
  fails, setting the error text and opening the modal with
  \<open>An error occurred during AI analysis: \<close> followed by the message of the cause, exactly
  when something is thrown before the payload is parsed (the read of the file or the
  request is rejected, or \<open>JSON.parse\<close> throws) or the payload parses to \<open>null\<close>, on
  which the first property read throws. A payload that parses to any other value does
  not fail the call, whether or not it has the declared shape; so a payload of the
  declared shape never fails it.
\<close>

theorem analysis_failure_condition:
  assumes "imageFile st = Some f"
  shows
    "(let st' = analyzeImageWithAI ev reply st;
          failure = (\<lambda>e. error st' = Some (''An error occurred during AI analysis: '' @ message e) \<and>
                         isModalOpen st' \<and>
                         modalContent st' = ''An error occurred during AI analysis: '' @ message e)
      in
       (error st' \<noteq> None \<longleftrightarrow>
          ev = OnError \<or> (case reply of Inl e \<Rightarrow> True | Inr p \<Rightarrow> nullish p)) \<and>
       (ev = OnError \<longrightarrow> failure ProgressEvent) \<and>
       (\<forall>e. ev = OnLoad \<and> reply = Inl e \<longrightarrow> failure e) \<and>
       (\<forall>p. ev = OnLoad \<and> reply = Inr p \<and> nullish p \<longrightarrow>
          failure (TypeError (''Cannot read properties of '' @ toString p @ '' (reading ''
                              @ [CHR 0x27] @ ''status'' @ [CHR 0x27] @ '')''))) \<and>
       (\<forall>p. ev = OnLoad \<and> reply = Inr p \<and> \<not> nullish p \<longrightarrow> error st' = None) \<and>
       (\<forall>p. ev = OnLoad \<and> reply = Inr p \<and> declaredShape p \<longrightarrow> error st' = None))"
proof -
  let ?st0 = "resetState (st\<lparr>loading := True\<rparr>)"
  let ?msg = "\<lambda>e. ''An error occurred during AI analysis: '' @ message e"
  have run: "analyzeImageWithAI ev reply st =
               analyzeEnd (andThen (fileToBase64 f ev) (\<lambda>base64Data. reply)) ?st0" for ev reply
    using assms by (rule analyzeImageWithAI_Some)
  have thrown: "error (analyzeEnd (Inl e) ?st0) = Some (?msg e) \<and> isModalOpen (analyzeEnd (Inl e) ?st0) \<and>
      modalContent (analyzeEnd (Inl e) ?st0) = ?msg e" for e
    by (simp add: error_after_throw)
  have parsed_ok: "error (analyzeEnd (Inr p) ?st0) = None" if "\<not> nullish p" for p
    using that by (simp add: metadata_after_value metadata_reset)
  consider (read) "ev = OnError"
    | (rejected) e where "ev = OnLoad" "reply = Inl e"
    | (nullp) p where "ev = OnLoad" "reply = Inr p" "nullish p"
    | (parsed) p where "ev = OnLoad" "reply = Inr p" "\<not> nullish p"
    by (cases ev; cases reply) auto
  then show ?thesis
  proof cases
    case read
    then show ?thesis
      unfolding Let_def using thrown [of ProgressEvent] by (simp add: run read_outcome)
  next
    case rejected
    then show ?thesis
      unfolding Let_def using thrown [of e] by (simp add: run read_outcome)
  next
    case nullp
    let ?e = "TypeError (''Cannot read properties of '' @ toString p @ '' (reading ''
                              @ [CHR 0x27] @ ''status'' @ [CHR 0x27] @ '')'')"
    have e: "analyzeEnd (Inr p) ?st0 = analyzeEnd (Inl ?e) ?st0"
      using nullp(3) by (rule analyzeEnd_nullish)
    show ?thesis
      unfolding Let_def using thrown [of ?e] nullp declaredShape_not_nullish [of p]
      by (auto simp: run read_outcome e)
  next
    case parsed
    then show ?thesis
      unfolding Let_def using parsed_ok [of p] by (simp add: run read_outcome)
  qed
qed

text \<open>
  Claim C3 as stated fails: the payload \<open>{"status": "maybe"}\<close> does not have the
  declared shape, and the call ends without an error, with \<open>'maybe'\<close> stored as the
  copyright verdict.
\<close>

theorem analysis_accepts_other_shapes_counterexample:
  "\<not> declaredShape (JObj [(''status'', JStr ''maybe'')]) \<and>
   error (analyzeImageWithAI OnLoad (Inr (JObj [(''status'', JStr ''maybe'')]))
            (handleFileSelect (Some \<lparr>fileType = ''image/png'', fileBytes = [0x89, 0x50]\<rparr>) initialApp))
     = None \<and>
   copyrightStatus (analyzeImageWithAI OnLoad (Inr (JObj [(''status'', JStr ''maybe'')]))
            (handleFileSelect (Some \<lparr>fileType = ''image/png'', fileBytes = [0x89, 0x50]\<rparr>) initialApp))
     = JStr ''maybe''"
proof -
  define st where "st = handleFileSelect (Some \<lparr>fileType = ''image/png'', fileBytes = [0x89, 0x50]\<rparr>) initialApp"
  have img: "imageFile st = Some \<lparr>fileType = ''image/png'', fileBytes = [0x89, 0x50]\<rparr>"
    by (simp add: st_def imageFile_handleFileSelect startsWith_def)
  have "\<not> declaredShape (JObj [(''status'', JStr ''maybe'')])"
    by (simp add: declaredShape_def verdictKeys_def)
  moreover have "error (analyzeImageWithAI OnLoad (Inr (JObj [(''status'', JStr ''maybe'')])) st) = None"
    by (simp add: analyzeImageWithAI_Some [OF img] read_outcome metadata_after_value metadata_reset)
  moreover have "copyrightStatus (analyzeImageWithAI OnLoad (Inr (JObj [(''status'', JStr ''maybe'')])) st)
      = JStr ''maybe''"
    by (simp add: analyzeImageWithAI_Some [OF img] read_outcome analyzeEnd_value populate_value Let_def)
  ultimately show ?thesis unfolding st_def by simp
qed

text \<open>
  A truncated payload, the payload \<open>null\<close> and a payload of the declared shape.
\<close>

theorem analysis_failure_condition_witness:
  "(let st = handleFileSelect (Some \<lparr>fileType = ''image/png'', fileBytes = [0x89, 0x50]\<rparr>) initialApp;
        conforming = JObj [(''status'', JStr ''found''), (''copyrightDescription'', JStr ''A logo is visible.''),
                      (''zedgeViolationStatus'', JStr ''pass''), (''zedgeViolationDescription'', JStr ''None.''),
                      (''womenPolicyStatus'', JStr ''pass''), (''womenPolicyDescription'', JStr ''None.''),
                      (''kidsViolationStatus'', JStr ''pass''), (''kidsViolationDescription'', JStr ''None.'')]
    in imageFile st \<noteq> None \<and>
       error (analyzeImageWithAI OnLoad (Inl (SyntaxError ''Unexpected end of JSON input'')) st)
         = Some ''An error occurred during AI analysis: Unexpected end of JSON input'' \<and>
       isModalOpen (analyzeImageWithAI OnLoad (Inl (SyntaxError ''Unexpected end of JSON input'')) st) \<and>
       modalContent (analyzeImageWithAI OnLoad (Inl (SyntaxError ''Unexpected end of JSON input'')) st)
         = ''An error occurred during AI analysis: Unexpected end of JSON input'' \<and>
       error (analyzeImageWithAI OnLoad (Inr JNull) st)
         = Some (''An error occurred during AI analysis: Cannot read properties of null (reading ''
                 @ [CHR 0x27] @ ''status'' @ [CHR 0x27] @ '')'') \<and>
       declaredShape conforming \<and>
       error (analyzeImageWithAI OnLoad (Inr conforming) st) = None)"
proof -
  define st where "st = handleFileSelect (Some \<lparr>fileType = ''image/png'', fileBytes = [0x89, 0x50]\<rparr>) initialApp"
  define conforming where "conforming =
     JObj [(''status'', JStr ''found''), (''copyrightDescription'', JStr ''A logo is visible.''),
           (''zedgeViolationStatus'', JStr ''pass''), (''zedgeViolationDescription'', JStr ''None.''),
           (''womenPolicyStatus'', JStr ''pass''), (''womenPolicyDescription'', JStr ''None.''),
           (''kidsViolationStatus'', JStr ''pass''), (''kidsViolationDescription'', JStr ''None.'')]"
  have img: "imageFile st = Some \<lparr>fileType = ''image/png'', fileBytes = [0x89, 0x50]\<rparr>"
    by (simp add: st_def imageFile_handleFileSelect startsWith_def)
  have shape: "declaredShape conforming"
    by (simp add: conforming_def declaredShape_def verdictKeys_def)
  note fc = analysis_failure_condition [OF img, unfolded Let_def]
  have 1: "error (analyzeImageWithAI OnLoad (Inl (SyntaxError ''Unexpected end of JSON input'')) st)
         = Some (''An error occurred during AI analysis: '' @ message (SyntaxError ''Unexpected end of JSON input'')) \<and>
       isModalOpen (analyzeImageWithAI OnLoad (Inl (SyntaxError ''Unexpected end of JSON input'')) st) \<and>
       modalContent (analyzeImageWithAI OnLoad (Inl (SyntaxError ''Unexpected end of JSON input'')) st)
         = ''An error occurred during AI analysis: '' @ message (SyntaxError ''Unexpected end of JSON input'')"
    using fc [of OnLoad "Inl (SyntaxError ''Unexpected end of JSON input'')"] by blast
  have 2: "error (analyzeImageWithAI OnLoad (Inr JNull) st)
         = Some (''An error occurred during AI analysis: '' @ message
             (TypeError (''Cannot read properties of '' @ toString JNull @ '' (reading ''
                              @ [CHR 0x27] @ ''status'' @ [CHR 0x27] @ '')'')))"
    using fc [of OnLoad "Inr JNull"] by (simp add: )
  have 3: "error (analyzeImageWithAI OnLoad (Inr conforming) st) = None"
    using fc [of OnLoad "Inr conforming"] shape by blast
  show ?thesis
    unfolding Let_def st_def [symmetric] conforming_def [symmetric]
    using img shape 1 2 3 by simp
qed

text \<open>
  Claim C5. When a call of \<open>analyzeImageWithAI\<close> on a selected image fails (the read,
  the request or the parse throws, or the payload is \<open>null\<close>), it ends with the four
  verdicts, their four explanations, the title and the description \<open>null\<close> and the tags
  empty, whatever they were before the call: the reset precedes the exchange and the
  failure path writes none of them. The error is set and \<open>loading\<close> is false again.
  And as an invariant of the page: after every sequence of events, the cells are cleared
  for as long as a call is unfinished and whenever an error of the analysis is shown, so
  they are never left partially filled.
\<close>

theorem failed_analysis_leaves_reset_state:
  "(imageFile st = Some f \<and>
    (ev = OnError \<or> (case reply of Inl e \<Rightarrow> True | Inr p \<Rightarrow> nullish p)) \<longrightarrow>
      (let st' = analyzeImageWithAI ev reply st in
         verdictsCleared st' \<and> metadataCleared st' \<and> error st' \<noteq> None \<and> \<not> loading st')) \<and>
   (let st = run apiKey events in
      (analyses st \<noteq> [] \<longrightarrow> verdictsCleared st \<and> metadataCleared st) \<and>
      (error st \<noteq> None \<longrightarrow> verdictsCleared st \<and> metadataCleared st))"
proof (intro conjI impI)
  assume "imageFile st = Some f \<and>
    (ev = OnError \<or> (case reply of Inl e \<Rightarrow> True | Inr p \<Rightarrow> nullish p))"
  then show "let st' = analyzeImageWithAI ev reply st in
         verdictsCleared st' \<and> metadataCleared st' \<and> error st' \<noteq> None \<and> \<not> loading st'"
    using failed_call_leaves_reset_state [of st f ev reply]
    by (simp add: Let_def verdictsCleared_def metadataCleared_def)
next
  show "let st = run apiKey events in
      (analyses st \<noteq> [] \<longrightarrow> verdictsCleared st \<and> metadataCleared st) \<and>
      (error st \<noteq> None \<longrightarrow> verdictsCleared st \<and> metadataCleared st)"
    using run_invariant [of apiKey events] by (simp add: pageInvariant_def Let_def)
qed

text \<open>
  A first call fills the verdicts and the metadata; a second call whose request is
  rejected leaves all of them reset. And the page after an image was chosen and its
  analysis was rejected: the error is shown over cleared cells.
\<close>

theorem failed_analysis_leaves_reset_state_witness:
  "(let passed = JObj [(''status'', JStr ''pass''), (''zedgeViolationStatus'', JStr ''pass''),
                       (''womenPolicyStatus'', JStr ''pass''), (''kidsViolationStatus'', JStr ''pass''),
                       (''title'', JStr ''A fox in a field''), (''tags'', JArr [JStr ''red_fox''])];
        st = analyzeImageWithAI OnLoad (Inr passed)
               (handleFileSelect (Some \<lparr>fileType = ''image/png'', fileBytes = [0x89, 0x50]\<rparr>) initialApp);
        st' = analyzeImageWithAI OnLoad (Inl (TypeError ''Failed to fetch'')) st
    in imageFile st \<noteq> None \<and>
       copyrightStatus st = JStr ''pass'' \<and> title st = JStr ''A fox in a field'' \<and>
       tags st = JArr [JStr ''red_fox''] \<and>
       copyrightStatus st' = JNull \<and> copyrightDescription st' = JNull \<and>
       zedgeViolationStatus st' = JNull \<and> zedgeViolationDescription st' = JNull \<and>
       womenPolicyStatus st' = JNull \<and> womenPolicyDescription st' = JNull \<and>
       kidsViolationStatus st' = JNull \<and> kidsViolationDescription st' = JNull \<and>
       title st' = JNull \<and> imageDescription st' = JNull \<and> tags st' = JArr [] \<and>
       error st' \<noteq> None \<and> loading st' = False \<and>
       error (run None [FileChosen (Some \<lparr>fileType = ''image/png'', fileBytes = [0x89, 0x50]\<rparr>),
                        AnalysisClicked, ReaderSettled 0 OnLoad,
                        ModelSettled 0 (Inl (TypeError ''Failed to fetch''))]) \<noteq> None \<and>
       verdictsCleared
           (run None [FileChosen (Some \<lparr>fileType = ''image/png'', fileBytes = [0x89, 0x50]\<rparr>),
                      AnalysisClicked, ReaderSettled 0 OnLoad,
                      ModelSettled 0 (Inl (TypeError ''Failed to fetch''))]) \<and>
       metadataCleared
           (run None [FileChosen (Some \<lparr>fileType = ''image/png'', fileBytes = [0x89, 0x50]\<rparr>),
                      AnalysisClicked, ReaderSettled 0 OnLoad,
                      ModelSettled 0 (Inl (TypeError ''Failed to fetch''))]))"
proof -
  define img where "img = \<lparr>fileType = ''image/png'', fileBytes = [0x89, 0x50 :: byte]\<rparr>"
  define passed where "passed = JObj [(''status'', JStr ''pass''), (''zedgeViolationStatus'', JStr ''pass''),
                       (''womenPolicyStatus'', JStr ''pass''), (''kidsViolationStatus'', JStr ''pass''),
                       (''title'', JStr ''A fox in a field''), (''tags'', JArr [JStr ''red_fox''])]"
  define st0 where "st0 = handleFileSelect (Some img) initialApp"
  define st where "st = analyzeImageWithAI OnLoad (Inr passed) st0"
  have img0: "imageFile st0 = Some img"
    by (simp add: st0_def img_def imageFile_handleFileSelect startsWith_def)
  then have img1: "imageFile st = Some img"
    by (simp add: st_def imageFile_analyzeImageWithAI)
  have np: "\<not> nullish passed" by (simp add: passed_def)
  have before: "copyrightStatus st = JStr ''pass'' \<and> title st = JStr ''A fox in a field'' \<and>
       tags st = JArr [JStr ''red_fox'']"
    unfolding st_def
    by (simp add: analyzeImageWithAI_Some [OF img0] read_outcome analyzeEnd_value [OF np] populate_value [OF np] Let_def)
      (simp add: passed_def)
  have after: "(let st' = analyzeImageWithAI OnLoad (Inl (TypeError ''Failed to fetch'')) st
    in verdictsCleared st' \<and> metadataCleared st' \<and> error st' \<noteq> None \<and> \<not> loading st')"
    using failed_analysis_leaves_reset_state [of st img OnLoad "Inl (TypeError ''Failed to fetch'')",
        THEN conjunct1] img1 by simp
  define tr where "tr = [FileChosen (Some img), AnalysisClicked, ReaderSettled 0 OnLoad,
                         ModelSettled 0 (Inl (TypeError ''Failed to fetch''))]"
  have "run None tr = analyzeEnd (Inl (TypeError ''Failed to fetch''))
                        ((resetState (handleFileSelect (Some img) initialApp))\<lparr>loading := True\<rparr>)"
    unfolding tr_def by (rule analysis_trace) (simp_all add: img_def startsWith_def)
  then have e: "error (run None tr) \<noteq> None"
    by (simp add: cells_analyzeEnd_thrown)
  then have c: "verdictsCleared (run None tr) \<and> metadataCleared (run None tr)"
    using failed_analysis_leaves_reset_state [of _ _ _ _ None tr, THEN conjunct2, unfolded Let_def]
    by blast
  show ?thesis
    unfolding Let_def img_def [symmetric] passed_def [symmetric] st0_def [symmetric] st_def [symmetric]
      tr_def [symmetric]
    using img1 before after [unfolded Let_def] e c
    by (simp add: verdictsCleared_def metadataCleared_def)
qed

text \<open>
  Claim C6. After every sequence of events, at most one call of \<open>analyzeImageWithAI\<close>
  is unfinished, so at most one request is out; \<open>loading\<close> is set exactly while a call is
  unfinished; and while one is, a click on the analysis button is refused (the button is
  disabled) and changes nothing.
\<close>

theorem analysis_runs_exclusive:
  "(let st = run apiKey events in
      length (analyses st) \<le> 1 \<and>
      length (filter requesting (analyses st)) \<le> 1 \<and>
      (loading st \<longleftrightarrow> analyses st \<noteq> []) \<and>
      (analyses st \<noteq> [] \<longrightarrow> fire apiKey AnalysisClicked st = st))"
proof -
  have inv: "length (analyses (run apiKey events)) \<le> 1"
    "loading (run apiKey events) \<longleftrightarrow> analyses (run apiKey events) \<noteq> []"
    using run_invariant [of apiKey events] by (simp_all add: pageInvariant_def)
  have "length (filter requesting (analyses (run apiKey events))) \<le> length (analyses (run apiKey events))"
    by (rule length_filter_le)
  then have "length (filter requesting (analyses (run apiKey events))) \<le> 1"
    using inv(1) by (rule le_trans)
  then show ?thesis
    using inv by (auto simp: Let_def)
qed

text \<open>
  An image is chosen and the button clicked three times, the read of the file ending in
  between: one request is out, and the other clicks did nothing.
\<close>

theorem analysis_runs_exclusive_witness:
  "(let img = \<lparr>fileType = ''image/png'', fileBytes = []\<rparr>;
        st = run (Some ''key'')
               [FileChosen (Some img), AnalysisClicked, AnalysisClicked, ReaderSettled 0 OnLoad,
                AnalysisClicked]
    in analyses st = [Requesting (JStr []) ''image/png''] \<and> loading st \<and>
       length (filter requesting (analyses st)) \<le> 1 \<and>
       fire (Some ''key'') AnalysisClicked st = st)"
proof -
  define img where "img = \<lparr>fileType = ''image/png'', fileBytes = [] :: byte list\<rparr>"
  define k where "k = Some ''key''"
  define s1 where "s1 = fire k (FileChosen (Some img)) initialApp"
  define s2 where "s2 = fire k AnalysisClicked s1"
  define s4 where "s4 = fire k (ReaderSettled 0 OnLoad) s2"
  have p1: "imageFile s1 = Some img" "\<not> loading s1" "analyses s1 = []"
    by (simp_all add: s1_def img_def handleFileSelect_def startsWith_def resetState_def
        createObjectURL_def initialApp_def Let_def)
  have p2: "imageFile s2 = Some img" "loading s2" "analyses s2 = [Reading img]"
    using p1 by (simp_all add: s2_def analyzeBegin_def resetState_def Let_def)
  have r2: "fire k AnalysisClicked s2 = s2" using p2 by simp
  have enc: "fileToBase64 img OnLoad = Inr (JStr [])"
    using fileToBase64_payload [of img] by (simp add: img_def base64Encode_def)
  have p4: "imageFile s4 = Some img" "loading s4" "analyses s4 = [Requesting (JStr []) ''image/png'']"
    using p2 enc by (simp_all add: s4_def img_def)
  have r4: "fire k AnalysisClicked s4 = s4" using p4 by simp
  have run: "run k [FileChosen (Some img), AnalysisClicked, AnalysisClicked, ReaderSettled 0 OnLoad,
                AnalysisClicked] = s4"
  proof -
    have "run k [FileChosen (Some img), AnalysisClicked, AnalysisClicked, ReaderSettled 0 OnLoad,
                AnalysisClicked]
          = fire k AnalysisClicked (fire k (ReaderSettled 0 OnLoad) (fire k AnalysisClicked
              (fire k AnalysisClicked (fire k (FileChosen (Some img)) initialApp))))"
      by (simp only: run_def foldl.simps)
    also have "\<dots> = fire k AnalysisClicked (fire k (ReaderSettled 0 OnLoad) (fire k AnalysisClicked s2))"
      by (simp only: s1_def s2_def)
    also have "\<dots> = s4"
      by (simp only: r2 r4 s4_def [symmetric])
    finally show ?thesis .
  qed
  note w = analysis_runs_exclusive [of k "[FileChosen (Some img), AnalysisClicked, AnalysisClicked,
      ReaderSettled 0 OnLoad, AnalysisClicked]", unfolded Let_def run]
  have ne: "analyses s4 \<noteq> []" using p4 by simp
  from w ne have "length (filter requesting (analyses s4)) \<le> 1" and "fire k AnalysisClicked s4 = s4"
    by blast+
  then show ?thesis
    unfolding Let_def img_def [symmetric] k_def [symmetric] run using p4 by simp
qed

section \<open>Speech: the guard, the credential, malformed audio and playback\<close>

text \<open>
  Claim C7. A call of \<open>handleTextToSpeech\<close> with a falsy text (the empty string,
  \<open>null\<close>, \<open>undefined\<close>) or while \<open>isSpeaking\<close> is set returns the state it was given:
  no request is sent, no message is shown, nothing changes.
\<close>

theorem speak_guard:
  assumes "\<not> truthy text \<or> isSpeaking st"
  shows "speakBegin apiKey text st = st \<and> handleTextToSpeech apiKey text fetched st = st"
  using assms by (auto simp: speakBegin_def handleTextToSpeech_def)

text \<open>The empty text, the text \<open>null\<close>, and a text while a speech is in flight.\<close>

theorem speak_guard_witness:
  "\<not> truthy (JStr []) \<and> \<not> truthy JNull \<and>
   handleTextToSpeech (Some ''key'') (JStr []) (Inl (TypeError ''Failed to fetch'')) initialApp = initialApp \<and>
   handleTextToSpeech (Some ''key'') JNull (Inl (TypeError ''Failed to fetch'')) initialApp = initialApp \<and>
   isSpeaking (initialApp\<lparr>isSpeaking := True\<rparr>) \<and>
   handleTextToSpeech (Some ''key'') (JStr ''A fox in a field'') (Inl (TypeError ''Failed to fetch''))
     (initialApp\<lparr>isSpeaking := True\<rparr>) = initialApp\<lparr>isSpeaking := True\<rparr> \<and>
   speechRequests (handleTextToSpeech (Some ''key'') (JStr ''A fox in a field'') (Inl (TypeError ''Failed to fetch''))
     (initialApp\<lparr>isSpeaking := True\<rparr>)) = []"
proof -
  have a: "\<not> truthy (JStr []) \<or> isSpeaking initialApp" by simp
  have b: "\<not> truthy JNull \<or> isSpeaking initialApp" by simp
  have c: "\<not> truthy (JStr ''A fox in a field'') \<or> isSpeaking (initialApp\<lparr>isSpeaking := True\<rparr>)" by simp
  have r: "speechRequests (initialApp\<lparr>isSpeaking := True\<rparr>) = []" by (simp add: initialApp_def)
  from speak_guard [OF a] speak_guard [OF b] speak_guard [OF c] r show ?thesis by simp
qed

text \<open>
  Claim C9. A call of \<open>handleTextToSpeech\<close> with a non-empty text and no speech in
  flight, when the credential is undefined or empty, only shows
  \<open>API key is not configured.\<close>: the flag is clear when the call returns, and no request
  is sent and no audio started.
\<close>

theorem speak_without_credential:
  assumes "truthy text" and "\<not> isSpeaking st" and "apiKey = None \<or> apiKey = Some []"
  shows "(let st' = handleTextToSpeech apiKey text fetched st in
           st' = showModal ''API key is not configured.'' st \<and>
           isModalOpen st' \<and> modalContent st' = ''API key is not configured.'' \<and>
           isSpeaking st' = False \<and>
           speechRequests st' = speechRequests st \<and> audios st' = audios st)"
  using assms by (auto simp: handleTextToSpeech_def speakBegin_def showModal_def Let_def)

text \<open>The credential undefined, and the credential empty.\<close>

theorem speak_without_credential_witness:
  "truthy (JStr ''A fox in a field'') \<and> \<not> isSpeaking initialApp \<and>
   handleTextToSpeech None (JStr ''A fox in a field'') (Inl (TypeError ''Failed to fetch'')) initialApp
     = showModal ''API key is not configured.'' initialApp \<and>
   isSpeaking (handleTextToSpeech None (JStr ''A fox in a field'') (Inl (TypeError ''Failed to fetch'')) initialApp)
     = False \<and>
   speechRequests (handleTextToSpeech None (JStr ''A fox in a field'') (Inl (TypeError ''Failed to fetch'')) initialApp)
     = [] \<and>
   handleTextToSpeech (Some []) (JStr ''A fox in a field'') (Inl (TypeError ''Failed to fetch'')) initialApp
     = showModal ''API key is not configured.'' initialApp"
proof -
  have t: "truthy (JStr ''A fox in a field'')" by simp
  have s: "\<not> isSpeaking initialApp" by (simp add: initialApp_def)
  have r: "speechRequests initialApp = []" by (simp add: initialApp_def)
  note a = speak_without_credential [OF t s, of None "Inl (TypeError ''Failed to fetch'')", unfolded Let_def]
  note b = speak_without_credential [OF t s, of "Some []" "Inl (TypeError ''Failed to fetch'')", unfolded Let_def]
  from a b t s r show ?thesis by (simp add: showModal_def)
qed

lemma decoded_empty: "base64ToArrayBuffer [] = Inr []"
  by (simp add: base64ToArrayBuffer_def atob_def stripPadding_def fillBytes.simps Let_def)

lemma speechContainer_odd:
  assumes "ok response" and "bodyJson response = Inr result"
    and "optProp (optProp (optFirst (optProp (optProp (optFirst (optProp result ''candidates''))
            ''content'') ''parts'')) ''inlineData'') ''data'' = JStr d"
    and "optProp (optProp (optFirst (optProp (optProp (optFirst (optProp result ''candidates''))
            ''content'') ''parts'')) ''inlineData'') ''mimeType'' = JStr m"
    and "startsWith m ''audio/''" and "matchRate m = Some digits"
    and "base64ToArrayBuffer d = Inr bytes" and "odd (length bytes)"
  shows "speechContainer (Inr response)
           = Inl (RangeError ''byte length of Int16Array should be a multiple of 2'')"
proof -
  have "d \<noteq> []" using assms(7,8) decoded_empty by auto
  then show ?thesis
    using assms by (simp add: speechContainer_def audioCondition_def Int16Array_def Let_def)
qed

text \<open>
  Claim C10. When the speech response is ok and its first part carries a base64 string
  \<open>d\<close> and a media type that starts with \<open>audio/\<close> and has a \<open>rate=<digits>\<close>
  parameter, and \<open>d\<close> decodes to an odd number of bytes, then the \<open>Int16Array\<close> on the
  decoded buffer throws a \<open>RangeError\<close>, no container is built, and the \<open>catch\<close> block
  shows the message and clears the flag; no object URL is created and no audio is started.
\<close>

theorem odd_audio_payload:
  assumes "ok response" and "bodyJson response = Inr result"
    and "optProp (optProp (optFirst (optProp (optProp (optFirst (optProp result ''candidates''))
            ''content'') ''parts'')) ''inlineData'') ''data'' = JStr d"
    and "optProp (optProp (optFirst (optProp (optProp (optFirst (optProp result ''candidates''))
            ''content'') ''parts'')) ''inlineData'') ''mimeType'' = JStr m"
    and "startsWith m ''audio/''" and "matchRate m = Some digits"
    and "base64ToArrayBuffer d = Inr bytes" and "odd (length bytes)"
  shows "(let st' = speakEnd (Inr response) st in
           Int16Array bytes = Inl (RangeError ''byte length of Int16Array should be a multiple of 2'') \<and>
           speechContainer (Inr response)
             = Inl (RangeError ''byte length of Int16Array should be a multiple of 2'') \<and>
           isModalOpen st' \<and>
           modalContent st' = ''An error occurred during TTS generation: byte length of Int16Array should be a multiple of 2'' \<and>
           isSpeaking st' = False \<and>
           audios st' = audios st \<and> objectUrls st' = objectUrls st)"
  using assms(8) speechContainer_odd [OF assms]
  by (simp add: speakEnd_def showModal_def Int16Array_def Let_def)

lemma one_byte_payload: "base64ToArrayBuffer ''AA=='' = Inr [0]"
proof -
  have "base64Encode [0] = ''AA==''"
    by (simp add: base64Encode_def b64alphabet_def numeral_2_eq_2)
  then show ?thesis using base64ToArrayBuffer_base64Encode [of "[0]"] by simp
qed

lemma rate_of_L16: "matchRate ''audio/L16;codec=pcm;rate=24000'' = Some ''24000''"
  by (simp add: startsWith_def isDigit_def)

text \<open>The payload \<open>AA==\<close>, one byte, with the media type of the speech service.\<close>

theorem odd_audio_payload_witness:
  "(let response = \<lparr>ok = True, status = 200, bodyText = Inr [],
                     bodyJson = Inr (JObj [(''candidates'', JArr [JObj [(''content'',
                        JObj [(''parts'', JArr [JObj [(''inlineData'',
                          JObj [(''data'', JStr ''AA==''),
                                (''mimeType'', JStr ''audio/L16;codec=pcm;rate=24000'')])]])])]])])\<rparr>;
        st = speakBegin (Some ''key'') (JStr ''A fox in a field'') initialApp;
        st' = speakEnd (Inr response) st
    in isSpeaking st \<and> speechRequests st = [''Say cheerfully: A fox in a field''] \<and>
       base64ToArrayBuffer ''AA=='' = Inr [0] \<and> odd (length [0 :: byte]) \<and>
       speechContainer (Inr response)
         = Inl (RangeError ''byte length of Int16Array should be a multiple of 2'') \<and>
       isModalOpen st' \<and>
       modalContent st' = ''An error occurred during TTS generation: byte length of Int16Array should be a multiple of 2'' \<and>
       isSpeaking st' = False \<and> audios st' = [] \<and> objectUrls st' = [])"
proof -
  define result where "result = JObj [(''candidates'', JArr [JObj [(''content'',
                        JObj [(''parts'', JArr [JObj [(''inlineData'',
                          JObj [(''data'', JStr ''AA==''),
                                (''mimeType'', JStr ''audio/L16;codec=pcm;rate=24000'')])]])])]])]"
  define response where "response = \<lparr>ok = True, status = 200, bodyText = Inr [], bodyJson = Inr result\<rparr>"
  define st where "st = speakBegin (Some ''key'') (JStr ''A fox in a field'') initialApp"
  have st: "isSpeaking st" "speechRequests st = [''Say cheerfully: A fox in a field'']"
    "audios st = []" "objectUrls st = []"
    by (simp_all add: st_def speakBegin_def initialApp_def Let_def)
  have h1: "ok response" by (simp add: response_def)
  have h2: "bodyJson response = Inr result" by (simp add: response_def)
  have h3: "optProp (optProp (optFirst (optProp (optProp (optFirst (optProp result ''candidates''))
            ''content'') ''parts'')) ''inlineData'') ''data'' = JStr ''AA==''"
    by (simp add: result_def optProp_def)
  have h4: "optProp (optProp (optFirst (optProp (optProp (optFirst (optProp result ''candidates''))
            ''content'') ''parts'')) ''inlineData'') ''mimeType'' = JStr ''audio/L16;codec=pcm;rate=24000''"
    by (simp add: result_def optProp_def)
  have h5: "startsWith ''audio/L16;codec=pcm;rate=24000'' ''audio/''" by (simp add: startsWith_def)
  have h8: "odd (length [0 :: byte])" by simp
  note w = odd_audio_payload [OF h1 h2 h3 h4 h5 rate_of_L16 one_byte_payload h8, of st, unfolded Let_def]
  show ?thesis
    unfolding Let_def result_def [symmetric] response_def [symmetric] st_def [symmetric]
    using w st one_byte_payload by simp
qed

text \<open>
  Claim C8, what the code does. When the audio ends, \<open>onended\<close> clears the flag and
  revokes the object URL, as the claim says. When \<open>audio.play()\<close> rejects, the handler
  shows \<open>Failed to play audio: \<close> and the message, and leaves the flag as it is: it stays
  set, against the claim, and the object URL stays live.
\<close>

theorem playback_start_failure_keeps_flag:
  "(let st' = playRejected audioUrl e st in
      isSpeaking st' = isSpeaking st \<and> objectUrls st' = objectUrls st \<and>
      isModalOpen st' \<and> modalContent st' = ''Failed to play audio: '' @ message e) \<and>
   (let st' = onended audioUrl st in
      isSpeaking st' = False \<and> audioUrl \<notin> set (objectUrls st'))"
  by (simp add: playRejected_def onended_def showModal_def revokeObjectURL_def Let_def)

lemma two_byte_payload: "base64ToArrayBuffer ''AAA='' = Inr [0, 0]"
proof -
  have "base64Encode [0, 0] = ''AAA=''"
    by (simp add: base64Encode_def b64alphabet_def)
  then show ?thesis using base64ToArrayBuffer_base64Encode [of "[0, 0]"] by simp
qed

lemma speechContainer_example:
  "\<exists>wavBlob. speechContainer (Inr \<lparr>ok = True, status = 200, bodyText = Inr [],
                     bodyJson = Inr (JObj [(''candidates'', JArr [JObj [(''content'',
                        JObj [(''parts'', JArr [JObj [(''inlineData'',
                          JObj [(''data'', JStr ''AAA=''),
                                (''mimeType'', JStr ''audio/L16;codec=pcm;rate=24000'')])]])])]])])\<rparr>)
     = Inr wavBlob"
  by (simp add: speechContainer_def optProp_def audioCondition_def startsWith_def Let_def
      isDigit_def two_byte_payload Int16Array_def pcmToWav_bytes)

text \<open>
  A speech request answered with two bytes of audio, whose playback is then refused: the
  flag is still set, and the next call of the speak handler returns at its guard.
\<close>

theorem playback_start_failure_keeps_flag_witness:
  "(let response = \<lparr>ok = True, status = 200, bodyText = Inr [],
                     bodyJson = Inr (JObj [(''candidates'', JArr [JObj [(''content'',
                        JObj [(''parts'', JArr [JObj [(''inlineData'',
                          JObj [(''data'', JStr ''AAA=''),
                                (''mimeType'', JStr ''audio/L16;codec=pcm;rate=24000'')])]])])]])])\<rparr>;
        st = handleTextToSpeech (Some ''key'') (JStr ''A fox in a field'') (Inr response) initialApp;
        st' = playRejected 0 (DOMException ''play() failed because the user did not interact with the document first.'') st
    in isSpeaking st \<and> audios st = [0] \<and> objectUrls st = [0] \<and>
       isSpeaking st' \<and> audios st' = [] \<and> objectUrls st' = [0] \<and>
       modalContent st' = ''Failed to play audio: play() failed because the user did not interact with the document first.'' \<and>
       speakBegin (Some ''key'') (JStr ''A fox in a field'') st' = st')"
proof -
  define response where "response = \<lparr>ok = True, status = 200, bodyText = Inr [],
                     bodyJson = Inr (JObj [(''candidates'', JArr [JObj [(''content'',
                        JObj [(''parts'', JArr [JObj [(''inlineData'',
                          JObj [(''data'', JStr ''AAA=''),
                                (''mimeType'', JStr ''audio/L16;codec=pcm;rate=24000'')])]])])]])])\<rparr>"
  define st where "st = handleTextToSpeech (Some ''key'') (JStr ''A fox in a field'') (Inr response) initialApp"
  define e where "e = DOMException ''play() failed because the user did not interact with the document first.''"
  obtain wavBlob where c: "speechContainer (Inr response) = Inr wavBlob"
    unfolding response_def using speechContainer_example by blast
  have st: "isSpeaking st" "audios st = [0]" "objectUrls st = [0]"
    by (simp_all add: st_def handleTextToSpeech_def speakBegin_def speakEnd_def c createObjectURL_def
        initialApp_def Let_def)
  note w = playback_start_failure_keeps_flag [of 0 e st, unfolded Let_def]
  have a: "audios (playRejected 0 e st) = []"
    by (simp add: playRejected_def showModal_def st Let_def)
  have "isSpeaking (playRejected 0 e st)" using w st by simp
  then have g: "speakBegin (Some ''key'') (JStr ''A fox in a field'') (playRejected 0 e st) = playRejected 0 e st"
    by (simp add: speakBegin_def)
  show ?thesis
    unfolding Let_def response_def [symmetric] st_def [symmetric] e_def [symmetric]
    using w st a g by (simp add: e_def)
qed

end
